theory Spec2Isabelle
  imports Main
begin

section \<open>Resource Allocation Graph (rag.h, rag.c)\<close>

text \<open>
  The C program keeps processes and resources in fixed arrays of 64 slots and the two edge
  relations in 64 x 64 matrices of \<open>int\<close>. Slot ids are C \<open>int\<close>s that every public
  function range-checks, so ids are modelled as \<open>int\<close> and an array as a function from
  \<open>int\<close>; only the indices 0..63 are ever read or written. Counters are modelled as
  unbounded \<open>int\<close>: every arithmetic step of the modelled functions is a step by one on a
  value that the instance accounting keeps between 0 and \<open>total_instances\<close>.
  A null \<open>rag\<close> or \<open>name\<close> pointer is not modelled.
\<close>

abbreviation MAX_PROCESSES :: int where "MAX_PROCESSES \<equiv> 64"
abbreviation MAX_RESOURCES :: int where "MAX_RESOURCES \<equiv> 64"
abbreviation MAX_NAME_LENGTH :: nat where "MAX_NAME_LENGTH \<equiv> 32"

datatype NodeType = NODE_PROCESS | NODE_RESOURCE

datatype ProcessState = PROCESS_RUNNING | PROCESS_WAITING | PROCESS_BLOCKED | PROCESS_TERMINATED

record Process =
  proc_id :: int
  proc_name :: string
  state :: ProcessState
  priority :: int
  proc_active :: bool

record Resource =
  res_id :: int
  res_name :: string
  total_instances :: int
  available_instances :: int
  res_active :: bool

record RAG =
  processes :: "int \<Rightarrow> Process"
  resources :: "int \<Rightarrow> Resource"
  request_matrix :: "int \<Rightarrow> int \<Rightarrow> int"
  assignment_matrix :: "int \<Rightarrow> int \<Rightarrow> int"
  process_count :: int
  resource_count :: int

text \<open>The index range \<open>for (int i = 0; i < 64; i++)\<close> of every loop over slots.\<close>

definition slots :: "int list" where
  "slots = [0..63]"

text \<open>\<open>m[i][j] = v\<close> on a matrix.\<close>

definition mat_upd :: "(int \<Rightarrow> int \<Rightarrow> int) \<Rightarrow> int \<Rightarrow> int \<Rightarrow> int \<Rightarrow> (int \<Rightarrow> int \<Rightarrow> int)" where
  "mat_upd m i j v = m(i := (m i)(j := v))"

subsection \<open>Lifecycle\<close>

text \<open>\<open>rag_init\<close>: \<open>memset\<close> to zero, then every slot inactive with id -1.\<close>

definition rag_init :: RAG where
  "rag_init =
     \<lparr>processes = (\<lambda>_. \<lparr>proc_id = -1, proc_name = [], state = PROCESS_RUNNING,
                          priority = 0, proc_active = False\<rparr>),
      resources = (\<lambda>_. \<lparr>res_id = -1, res_name = [], total_instances = 0,
                          available_instances = 0, res_active = False\<rparr>),
      request_matrix = (\<lambda>_ _. 0),
      assignment_matrix = (\<lambda>_ _. 0),
      process_count = 0,
      resource_count = 0\<rparr>"

definition rag_reset :: "RAG \<Rightarrow> RAG" where
  "rag_reset rag = rag_init"

subsection \<open>Process and resource lookup\<close>

text \<open>\<open>rag_get_process\<close> returns NULL (here \<open>None\<close>) for an id out of range or an inactive slot.\<close>

definition rag_get_process :: "RAG \<Rightarrow> int \<Rightarrow> Process option" where
  "rag_get_process rag process_id =
     (if process_id < 0 \<or> process_id \<ge> MAX_PROCESSES then None
      else if \<not> proc_active (processes rag process_id) then None
      else Some (processes rag process_id))"

definition rag_get_resource :: "RAG \<Rightarrow> int \<Rightarrow> Resource option" where
  "rag_get_resource rag resource_id =
     (if resource_id < 0 \<or> resource_id \<ge> MAX_RESOURCES then None
      else if \<not> res_active (resources rag resource_id) then None
      else Some (resources rag resource_id))"

definition rag_set_process_state :: "RAG \<Rightarrow> int \<Rightarrow> ProcessState \<Rightarrow> bool \<times> RAG" where
  "rag_set_process_state rag process_id st =
     (case rag_get_process rag process_id of
        None \<Rightarrow> (False, rag)
      | Some p \<Rightarrow> (True, rag\<lparr>processes := (processes rag)(process_id := p\<lparr>state := st\<rparr>)\<rparr>))"

subsection \<open>Edges\<close>

text \<open>The scan \<open>for (r = 0; r < 64; r++) if (request_matrix[p][r] > 0) { has_requests = true; break; }\<close>.\<close>

definition has_requests :: "RAG \<Rightarrow> int \<Rightarrow> bool" where
  "has_requests rag process_id = list_ex (\<lambda>r. request_matrix rag process_id r > 0) slots"

definition rag_request_resource :: "RAG \<Rightarrow> int \<Rightarrow> int \<Rightarrow> bool \<times> RAG" where
  "rag_request_resource rag process_id resource_id =
     (case (rag_get_process rag process_id, rag_get_resource rag resource_id) of
        (Some p, Some r) \<Rightarrow>
          if request_matrix rag process_id resource_id > 0 then (True, rag)
          else (True, rag\<lparr>request_matrix := mat_upd (request_matrix rag) process_id resource_id 1,
                           processes := (processes rag)(process_id := p\<lparr>state := PROCESS_WAITING\<rparr>)\<rparr>)
      | _ \<Rightarrow> (False, rag))"

definition rag_cancel_request :: "RAG \<Rightarrow> int \<Rightarrow> int \<Rightarrow> bool \<times> RAG" where
  "rag_cancel_request rag process_id resource_id =
     (if process_id < 0 \<or> process_id \<ge> MAX_PROCESSES then (False, rag)
      else if resource_id < 0 \<or> resource_id \<ge> MAX_RESOURCES then (False, rag)
      else if request_matrix rag process_id resource_id = 0 then (False, rag)
      else
        let rag1 = rag\<lparr>request_matrix := mat_upd (request_matrix rag) process_id resource_id 0\<rparr>
        in if \<not> has_requests rag1 process_id \<and> proc_active (processes rag1 process_id)
           then (True, rag1\<lparr>processes := (processes rag1)
                   (process_id := (processes rag1 process_id)\<lparr>state := PROCESS_RUNNING\<rparr>)\<rparr>)
           else (True, rag1))"

definition rag_allocate_resource :: "RAG \<Rightarrow> int \<Rightarrow> int \<Rightarrow> bool \<times> RAG" where
  "rag_allocate_resource rag process_id resource_id =
     (case (rag_get_process rag process_id, rag_get_resource rag resource_id) of
        (Some p, Some r) \<Rightarrow>
          if available_instances r \<le> 0 then (False, rag)
          else
            let rag1 = rag\<lparr>request_matrix := mat_upd (request_matrix rag) process_id resource_id 0\<rparr>;
                rag2 = rag1\<lparr>assignment_matrix := mat_upd (assignment_matrix rag1) process_id resource_id
                                (assignment_matrix rag1 process_id resource_id + 1)\<rparr>;
                rag3 = rag2\<lparr>resources := (resources rag2)
                          (resource_id := r\<lparr>available_instances := available_instances r - 1\<rparr>)\<rparr>
            in if \<not> has_requests rag3 process_id
               then (True, rag3\<lparr>processes := (processes rag3)(process_id := p\<lparr>state := PROCESS_RUNNING\<rparr>)\<rparr>)
               else (True, rag3)
      | _ \<Rightarrow> (False, rag))"

definition rag_release_resource :: "RAG \<Rightarrow> int \<Rightarrow> int \<Rightarrow> bool \<times> RAG" where
  "rag_release_resource rag process_id resource_id =
     (if process_id < 0 \<or> process_id \<ge> MAX_PROCESSES then (False, rag)
      else if resource_id < 0 \<or> resource_id \<ge> MAX_RESOURCES then (False, rag)
      else if assignment_matrix rag process_id resource_id \<le> 0 then (False, rag)
      else
        let rag1 = rag\<lparr>assignment_matrix := mat_upd (assignment_matrix rag) process_id resource_id
                        (assignment_matrix rag process_id resource_id - 1)\<rparr>
        in if res_active (resources rag1 resource_id)
           then (True, rag1\<lparr>resources := (resources rag1)
                   (resource_id := (resources rag1 resource_id)
                      \<lparr>available_instances := available_instances (resources rag1 resource_id) + 1\<rparr>)\<rparr>)
           else (True, rag1))"

text \<open>
  The inner loop of \<open>rag_release_all_resources\<close>,
  \<open>while (assignment_matrix[process_id][r] > 0) { rag_release_resource(rag, process_id, r); released++; }\<close>.
  The source reaches it only after the range check of \<open>process_id\<close> and with the loop index
  \<open>r\<close> of \<open>for (r = 0; r < 64; r++)\<close>; the first two conjuncts of the condition restate that
  context, under which every call of \<open>rag_release_resource\<close> lowers the matrix entry by one.
\<close>

function release_while :: "RAG \<Rightarrow> int \<Rightarrow> int \<Rightarrow> int \<Rightarrow> int \<times> RAG" where
  "release_while rag process_id r released =
     (if (0 \<le> process_id \<and> process_id < MAX_PROCESSES) \<and> (0 \<le> r \<and> r < MAX_RESOURCES)
         \<and> assignment_matrix rag process_id r > 0
      then release_while (snd (rag_release_resource rag process_id r)) process_id r (released + 1)
      else (released, rag))"
  by pat_completeness auto
termination
  by (relation "measure (\<lambda>(rag, p, r, n). nat (assignment_matrix rag p r))")
     (auto simp: rag_release_resource_def mat_upd_def Let_def)

declare release_while.simps [simp del]

definition rag_release_all_resources :: "RAG \<Rightarrow> int \<Rightarrow> int \<times> RAG" where
  "rag_release_all_resources rag process_id =
     (if process_id < 0 \<or> process_id \<ge> MAX_PROCESSES then (0, rag)
      else fold (\<lambda>r (released, g). release_while g process_id r released) slots (0, rag))"

subsection \<open>Process and resource management\<close>

text \<open>
  \<open>rag_add_process\<close>: first inactive slot, or -1 when none; \<open>strncpy\<close> keeps at most
  \<open>MAX_NAME_LENGTH - 1\<close> characters of the name.
\<close>

definition rag_add_process :: "RAG \<Rightarrow> string \<Rightarrow> int \<Rightarrow> int \<times> RAG" where
  "rag_add_process rag name prio =
     (case find (\<lambda>i. \<not> proc_active (processes rag i)) slots of
        None \<Rightarrow> (-1, rag)
      | Some slot \<Rightarrow>
          let p = \<lparr>proc_id = slot, proc_name = take (MAX_NAME_LENGTH - 1) name,
                   state = PROCESS_RUNNING, priority = prio, proc_active = True\<rparr>;
              rag1 = rag\<lparr>processes := (processes rag)(slot := p)\<rparr>;
              rag2 = fold (\<lambda>r g. g\<lparr>request_matrix := mat_upd (request_matrix g) slot r 0,
                                      assignment_matrix := mat_upd (assignment_matrix g) slot r 0\<rparr>)
                          slots rag1
          in (slot, rag2\<lparr>process_count := process_count rag2 + 1\<rparr>))"

definition rag_remove_process :: "RAG \<Rightarrow> int \<Rightarrow> bool \<times> RAG" where
  "rag_remove_process rag process_id =
     (if process_id < 0 \<or> process_id \<ge> MAX_PROCESSES then (False, rag)
      else if \<not> proc_active (processes rag process_id) then (False, rag)
      else
        let rag1 = snd (rag_release_all_resources rag process_id);
            rag2 = fold (\<lambda>r g. if request_matrix g process_id r > 0
                                then g\<lparr>request_matrix := mat_upd (request_matrix g) process_id r 0\<rparr>
                                else g)
                        slots rag1
        in (True, rag2\<lparr>processes := (processes rag2)
                  (process_id := (processes rag2 process_id)\<lparr>proc_active := False, proc_id := -1\<rparr>),
                process_count := process_count rag2 - 1\<rparr>))"

definition rag_add_resource :: "RAG \<Rightarrow> string \<Rightarrow> int \<Rightarrow> int \<times> RAG" where
  "rag_add_resource rag name instances =
     (if instances \<le> 0 then (-1, rag)
      else case find (\<lambda>i. \<not> res_active (resources rag i)) slots of
        None \<Rightarrow> (-1, rag)
      | Some slot \<Rightarrow>
          let r = \<lparr>res_id = slot, res_name = take (MAX_NAME_LENGTH - 1) name,
                   total_instances = instances, available_instances = instances, res_active = True\<rparr>;
              rag1 = rag\<lparr>resources := (resources rag)(slot := r)\<rparr>;
              rag2 = fold (\<lambda>p g. g\<lparr>request_matrix := mat_upd (request_matrix g) p slot 0,
                                      assignment_matrix := mat_upd (assignment_matrix g) p slot 0\<rparr>)
                          slots rag1
          in (slot, rag2\<lparr>resource_count := resource_count rag2 + 1\<rparr>))"

definition rag_remove_resource :: "RAG \<Rightarrow> int \<Rightarrow> bool \<times> RAG" where
  "rag_remove_resource rag resource_id =
     (if resource_id < 0 \<or> resource_id \<ge> MAX_RESOURCES then (False, rag)
      else if \<not> res_active (resources rag resource_id) then (False, rag)
      else if list_ex (\<lambda>p. assignment_matrix rag p resource_id > 0) slots then (False, rag)
      else
        let rag1 = fold (\<lambda>p g. g\<lparr>request_matrix := mat_upd (request_matrix g) p resource_id 0\<rparr>)
                        slots rag
        in (True, rag1\<lparr>resources := (resources rag1)
                  (resource_id := (resources rag1 resource_id)\<lparr>res_active := False, res_id := -1\<rparr>),
                resource_count := resource_count rag1 - 1\<rparr>))"

subsection \<open>Queries\<close>

definition rag_is_requesting :: "RAG \<Rightarrow> int \<Rightarrow> int \<Rightarrow> bool" where
  "rag_is_requesting rag process_id resource_id =
     (if process_id < 0 \<or> process_id \<ge> MAX_PROCESSES then False
      else if resource_id < 0 \<or> resource_id \<ge> MAX_RESOURCES then False
      else request_matrix rag process_id resource_id > 0)"

definition rag_is_holding :: "RAG \<Rightarrow> int \<Rightarrow> int \<Rightarrow> bool" where
  "rag_is_holding rag process_id resource_id =
     (if process_id < 0 \<or> process_id \<ge> MAX_PROCESSES then False
      else if resource_id < 0 \<or> resource_id \<ge> MAX_RESOURCES then False
      else assignment_matrix rag process_id resource_id > 0)"


section \<open>Cycle detection (cycle_detector.h, cycle_detector.c)\<close>

abbreviation MAX_CYCLE_LENGTH :: nat where "MAX_CYCLE_LENGTH \<equiv> 128"
abbreviation MAX_CYCLES :: nat where "MAX_CYCLES \<equiv> 32"

datatype NodeColor = COLOR_WHITE | COLOR_GRAY | COLOR_BLACK

text \<open>\<open>GraphNode\<close> and \<open>CycleNode\<close> are the same pair of fields in the source.\<close>

record GraphNode =
  node_id :: int
  node_type :: NodeType

text \<open>A \<open>Cycle\<close>: the list is \<open>nodes[0 .. length - 1]\<close>.\<close>

record Cycle =
  nodes :: "GraphNode list"
  valid :: bool

text \<open>
  An array with its counter is a list: \<open>cycles[0 .. cycle_count - 1]\<close>,
  \<open>deadlocked_processes[0 .. deadlocked_process_count - 1]\<close> and
  \<open>deadlocked_resources[0 .. deadlocked_resource_count - 1]\<close>.
\<close>

record DeadlockResult =
  deadlock_detected :: bool
  cycles :: "Cycle list"
  deadlocked_processes :: "int list"
  deadlocked_resources :: "int list"

datatype DetectionAlgorithm = DETECT_DFS | DETECT_DFS_ALL_CYCLES | DETECT_BANKER

text \<open>
  The DFS state; \<open>path\<close> is \<open>path[0 .. path_length - 1]\<close> and \<open>output_cycle\<close> the cycle
  that the pointer of the same name refers to. The graph itself is passed beside the state.
\<close>

record DFSState =
  process_colors :: "int \<Rightarrow> NodeColor"
  resource_colors :: "int \<Rightarrow> NodeColor"
  path :: "GraphNode list"
  cycle_found :: bool
  output_cycle :: Cycle

definition init_dfs_state :: "Cycle \<Rightarrow> DFSState" where
  "init_dfs_state output =
     \<lparr>process_colors = (\<lambda>_. COLOR_WHITE), resource_colors = (\<lambda>_. COLOR_WHITE),
      path = [], cycle_found = False, output_cycle = output\<rparr>"

text \<open>\<open>extract_cycle\<close> copies \<open>path[cycle_start_idx ..]\<close>, at most \<open>MAX_CYCLE_LENGTH\<close> nodes.\<close>

definition extract_cycle :: "DFSState \<Rightarrow> nat \<Rightarrow> DFSState" where
  "extract_cycle st cycle_start_idx =
     st\<lparr>output_cycle := \<lparr>nodes = take MAX_CYCLE_LENGTH (drop cycle_start_idx (path st)), valid = True\<rparr>\<rparr>"

text \<open>The search \<open>for (i = 0; i < path_length; i++) if (path[i].type == t && path[i].id == id)\<close>:
  the first index of the node in the path.\<close>

fun path_find :: "GraphNode list \<Rightarrow> NodeType \<Rightarrow> int \<Rightarrow> nat option" where
  "path_find [] t i = None"
| "path_find (n # ns) t i =
     (if node_type n = t \<and> node_id n = i then Some 0 else map_option Suc (path_find ns t i))"

text \<open>
  A \<open>for\<close> loop over slots whose body may end the function with \<open>return true\<close>: the body
  returns the flag and the state; the loop stops at the first true.
\<close>

primrec for_until :: "('s \<Rightarrow> int \<Rightarrow> (bool \<times> 's) option) \<Rightarrow> int list \<Rightarrow> 's \<Rightarrow> (bool \<times> 's) option" where
  "for_until body [] st = Some (False, st)"
| "for_until body (x # xs) st =
     (case body st x of
        None \<Rightarrow> None
      | Some (found, st') \<Rightarrow> if found then Some (True, st') else for_until body xs st')"

text \<open>
  \<open>dfs_visit_process\<close> and \<open>dfs_visit_resource\<close> call each other; the source gives no bound
  on the depth of that recursion. The model counts it down in its first argument and
  answers \<open>None\<close> when the count is used up. A call returns the flag and the state it leaves.
  \<open>path_length--\<close> is \<open>butlast\<close>.
\<close>

fun dfs_visit_process :: "nat \<Rightarrow> RAG \<Rightarrow> DFSState \<Rightarrow> int \<Rightarrow> (bool \<times> DFSState) option"
  and dfs_visit_resource :: "nat \<Rightarrow> RAG \<Rightarrow> DFSState \<Rightarrow> int \<Rightarrow> (bool \<times> DFSState) option"
where
  "dfs_visit_process 0 rag st process_id = None"
| "dfs_visit_process (Suc depth) rag st process_id =
     (if cycle_found st then Some (True, st)
      else if process_id < 0 \<or> process_id \<ge> MAX_PROCESSES then Some (False, st)
      else if \<not> proc_active (processes rag process_id) then Some (False, st)
      else case (if process_colors st process_id = COLOR_GRAY
                 then path_find (path st) NODE_PROCESS process_id else None) of
        Some i \<Rightarrow> Some (True, (extract_cycle st i)\<lparr>cycle_found := True\<rparr>)
      | None \<Rightarrow>
          if process_colors st process_id = COLOR_BLACK then Some (False, st)
          else
            let st1 = st\<lparr>process_colors := (process_colors st)(process_id := COLOR_GRAY)\<rparr>;
                st2 = (if length (path st1) < MAX_CYCLE_LENGTH
                       then st1\<lparr>path := path st1 @ [\<lparr>node_id = process_id, node_type = NODE_PROCESS\<rparr>]\<rparr>
                       else st1)
            in case for_until (\<lambda>s r. if request_matrix rag process_id r > 0
                                       then dfs_visit_resource depth rag s r else Some (False, s))
                     slots st2 of
                 None \<Rightarrow> None
               | Some (found, st3) \<Rightarrow>
                   if found then Some (True, st3)
                   else Some (False, st3\<lparr>path := butlast (path st3),
                                   process_colors := (process_colors st3)(process_id := COLOR_BLACK)\<rparr>))"
| "dfs_visit_resource 0 rag st resource_id = None"
| "dfs_visit_resource (Suc depth) rag st resource_id =
     (if cycle_found st then Some (True, st)
      else if resource_id < 0 \<or> resource_id \<ge> MAX_RESOURCES then Some (False, st)
      else if \<not> res_active (resources rag resource_id) then Some (False, st)
      else case (if resource_colors st resource_id = COLOR_GRAY
                 then path_find (path st) NODE_RESOURCE resource_id else None) of
        Some i \<Rightarrow> Some (True, (extract_cycle st i)\<lparr>cycle_found := True\<rparr>)
      | None \<Rightarrow>
          if resource_colors st resource_id = COLOR_BLACK then Some (False, st)
          else
            let st1 = st\<lparr>resource_colors := (resource_colors st)(resource_id := COLOR_GRAY)\<rparr>;
                st2 = (if length (path st1) < MAX_CYCLE_LENGTH
                       then st1\<lparr>path := path st1 @ [\<lparr>node_id = resource_id, node_type = NODE_RESOURCE\<rparr>]\<rparr>
                       else st1)
            in case for_until (\<lambda>s p. if assignment_matrix rag p resource_id > 0
                                       then dfs_visit_process depth rag s p else Some (False, s))
                     slots st2 of
                 None \<Rightarrow> None
               | Some (found, st3) \<Rightarrow>
                   if found then Some (True, st3)
                   else Some (False, st3\<lparr>path := butlast (path st3),
                                   resource_colors := (resource_colors st3)(resource_id := COLOR_BLACK)\<rparr>))"

text \<open>\<open>deadlock_result_init\<close>: nothing detected, no cycle, both lists empty.\<close>

definition deadlock_result_init :: DeadlockResult where
  "deadlock_result_init =
     \<lparr>deadlock_detected = False, cycles = [], deadlocked_processes = [], deadlocked_resources = []\<rparr>"

text \<open>
  A visit from a state in which every node is white is at most 64 + 64 calls deep before it
  meets a node that is not white; \<open>dfs_depth\<close> is the count the model starts a visit with.
\<close>

definition dfs_depth :: nat where
  "dfs_depth = 129"

text \<open>
  The loop of \<open>detect_deadlock_with_algorithm\<close> over the start processes: an active
  process with a pending request whose colour is white. \<open>DETECT_DFS\<close> stops at the first
  cycle; \<open>DETECT_DFS_ALL_CYCLES\<close> clears \<open>cycle.valid\<close> and \<open>cycle_found\<close> and goes on.
\<close>

primrec detect_roots :: "DetectionAlgorithm \<Rightarrow> RAG \<Rightarrow> int list \<Rightarrow> DFSState \<Rightarrow> DeadlockResult
                      \<Rightarrow> (DFSState \<times> DeadlockResult) option" where
  "detect_roots algorithm rag [] = (\<lambda>st result. Some (st, result))"
| "detect_roots algorithm rag (p # ps) = (\<lambda>st result.
     if \<not> proc_active (processes rag p) then detect_roots algorithm rag ps st result
     else if has_requests rag p \<and> process_colors st p = COLOR_WHITE
     then case dfs_visit_process dfs_depth rag st p of
            None \<Rightarrow> None
          | Some (found, st1) \<Rightarrow>
              if found
              then let result1 = result\<lparr>deadlock_detected := True\<rparr>;
                       result2 = (if length (cycles result1) < MAX_CYCLES
                                  then result1\<lparr>cycles := cycles result1 @ [output_cycle st1]\<rparr>
                                  else result1)
                   in if algorithm = DETECT_DFS then Some (st1, result2)
                      else detect_roots algorithm rag ps
                             (st1\<lparr>output_cycle := (output_cycle st1)\<lparr>valid := False\<rparr>,
                                  cycle_found := False\<rparr>) result2
              else detect_roots algorithm rag ps st1 result
     else detect_roots algorithm rag ps st result)"

text \<open>The flags \<open>process_in_deadlock[id]\<close> and \<open>resource_in_deadlock[id]\<close> set from the cycles.\<close>

definition process_in_deadlock :: "DeadlockResult \<Rightarrow> int \<Rightarrow> bool" where
  "process_in_deadlock result p =
     list_ex (\<lambda>cyc. list_ex (\<lambda>n. node_type n = NODE_PROCESS \<and> node_id n = p) (nodes cyc)) (cycles result)"

definition resource_in_deadlock :: "DeadlockResult \<Rightarrow> int \<Rightarrow> bool" where
  "resource_in_deadlock result r =
     list_ex (\<lambda>cyc. list_ex (\<lambda>n. node_type n \<noteq> NODE_PROCESS \<and> node_id n = r) (nodes cyc)) (cycles result)"

definition detect_deadlock_with_algorithm :: "RAG \<Rightarrow> DetectionAlgorithm \<Rightarrow> DeadlockResult option" where
  "detect_deadlock_with_algorithm rag algorithm =
     (if algorithm = DETECT_BANKER then Some deadlock_result_init
      else case detect_roots algorithm rag slots (init_dfs_state \<lparr>nodes = [], valid = False\<rparr>)
                  deadlock_result_init of
        None \<Rightarrow> None
      | Some (st, result) \<Rightarrow>
          if deadlock_detected result
          then Some (result\<lparr>deadlocked_processes := filter (process_in_deadlock result) slots,
                            deadlocked_resources := filter (resource_in_deadlock result) slots\<rparr>)
          else Some result)"

definition detect_deadlock :: "RAG \<Rightarrow> DeadlockResult option" where
  "detect_deadlock rag = detect_deadlock_with_algorithm rag DETECT_DFS"

definition is_process_deadlocked :: "RAG \<Rightarrow> int \<Rightarrow> bool option" where
  "is_process_deadlocked rag process_id =
     (if process_id < 0 \<or> process_id \<ge> MAX_PROCESSES then Some False
      else if \<not> proc_active (processes rag process_id) then Some False
      else case detect_deadlock rag of
        None \<Rightarrow> None
      | Some result \<Rightarrow>
          if \<not> deadlock_detected result then Some False
          else Some (list_ex (\<lambda>q. q = process_id) (deadlocked_processes result)))"

subsection \<open>Wait-for graph\<close>

text \<open>\<open>build_wait_for_graph\<close>: the three nested loops over p1, r and p2.\<close>

definition build_wait_for_graph :: "RAG \<Rightarrow> (int \<Rightarrow> int \<Rightarrow> int)" where
  "build_wait_for_graph rag =
     fold (\<lambda>p1 m.
        if \<not> proc_active (processes rag p1) then m
        else fold (\<lambda>r m.
               if request_matrix rag p1 r > 0
               then fold (\<lambda>p2 m. if p1 \<noteq> p2 \<and> assignment_matrix rag p2 r > 0
                                  then mat_upd m p1 p2 1 else m) slots m
               else m) slots m)
       slots (\<lambda>_ _. 0)"

text \<open>
  The scan \<open>for (next = 0; next < process_count; next++)\<close> of one round of the \<open>while\<close> loop
  of \<open>detect_cycle_in_wait_for\<close>: it ends at the first successor that is gray (a cycle) or
  white (to be pushed), or runs through.
\<close>

datatype ScanResult = SCAN_GRAY int | SCAN_WHITE int | SCAN_NONE

fun wait_for_scan :: "(int \<Rightarrow> int \<Rightarrow> int) \<Rightarrow> (int \<Rightarrow> NodeColor) \<Rightarrow> int \<Rightarrow> int list \<Rightarrow> ScanResult" where
  "wait_for_scan wfm colors current [] = SCAN_NONE"
| "wait_for_scan wfm colors current (next # rest) =
     (if wfm current next = 0 then wait_for_scan wfm colors current rest
      else if colors next = COLOR_GRAY then SCAN_GRAY next
      else if colors next = COLOR_WHITE then SCAN_WHITE next
      else wait_for_scan wfm colors current rest)"

text \<open>The extraction \<open>while (trace != next && *cycle_length < MAX_PROCESSES)\<close> along \<open>parent\<close>.\<close>

function wait_for_trace :: "(int \<Rightarrow> int) \<Rightarrow> int \<Rightarrow> int \<Rightarrow> int list \<Rightarrow> int list" where
  "wait_for_trace parent next trace cycle =
     (if trace \<noteq> next \<and> int (length cycle) < MAX_PROCESSES
      then wait_for_trace parent next (parent trace) (cycle @ [trace])
      else cycle)"
  by pat_completeness auto
termination
  by (relation "measure (\<lambda>(parent, next, trace, cycle). 64 - length cycle)") auto

declare wait_for_trace.simps [simp del]


text \<open>
  The \<open>while (stack_size > 0)\<close> loop of \<open>detect_cycle_in_wait_for\<close>. The list holds the
  stack with its top \<open>stack[stack_size - 1]\<close> first. The loop ends with a cycle found (the
  flag and the extracted cycle) or with the stack empty; it returns the colours and parents
  for the next start node.
\<close>

function wait_for_while :: "(int \<Rightarrow> int \<Rightarrow> int) \<Rightarrow> int \<Rightarrow> (int \<Rightarrow> NodeColor) \<Rightarrow> (int \<Rightarrow> int) \<Rightarrow> int list
                             \<Rightarrow> bool \<times> int list \<times> (int \<Rightarrow> NodeColor) \<times> (int \<Rightarrow> int)" where
  "wait_for_while wfm pcount colors parent stack =
     (case stack of
        [] \<Rightarrow> (False, [], colors, parent)
      | current # rest \<Rightarrow>
          let colors1 = (if colors current = COLOR_WHITE then colors(current := COLOR_GRAY) else colors)
          in case wait_for_scan wfm colors1 current [0..pcount - 1] of
               SCAN_GRAY next \<Rightarrow> (True, wait_for_trace parent next current [next], colors1, parent)
             | SCAN_WHITE next \<Rightarrow>
                 wait_for_while wfm pcount colors1 (parent(next := current)) (next # stack)
             | SCAN_NONE \<Rightarrow>
                 wait_for_while wfm pcount (colors1(current := COLOR_BLACK)) parent rest)"
  by pat_completeness auto

lemma wait_for_scan_white:
  "wait_for_scan wfm colors current nexts = SCAN_WHITE nxt \<Longrightarrow>
   nxt \<in> set nexts \<and> colors nxt = COLOR_WHITE"
  by (induction nexts) (auto split: if_splits)

text \<open>The measure of the loop counts the white nodes among the slots below \<open>n\<close> and on the stack.\<close>

definition white_count :: "int \<Rightarrow> (int \<Rightarrow> NodeColor) \<Rightarrow> int list \<Rightarrow> nat" where
  "white_count n colors stack = card {i \<in> {0..n - 1} \<union> set stack. colors i = COLOR_WHITE}"

lemma white_count_push:
  "nxt \<in> {0..n - 1} \<Longrightarrow> white_count n c (nxt # stack) = white_count n c stack"
  unfolding white_count_def by (rule arg_cong[where f = card]) auto

lemma white_count_le:
  assumes "set stack' \<subseteq> set stack" and "\<And>i. c' i = COLOR_WHITE \<Longrightarrow> c i = COLOR_WHITE"
  shows "white_count n c' stack' \<le> white_count n c stack"
  unfolding white_count_def by (rule card_mono) (use assms in auto)

lemma white_count_less:
  assumes "set stack' \<subseteq> set stack" and "\<And>i. c' i = COLOR_WHITE \<Longrightarrow> c i = COLOR_WHITE"
    and "x \<in> set stack" and "c x = COLOR_WHITE" and "c' x \<noteq> COLOR_WHITE"
  shows "white_count n c' stack' < white_count n c stack"
  unfolding white_count_def by (rule psubset_card_mono) (use assms in auto)

termination wait_for_while
proof (relation "measure (\<lambda>(wfm, n, colors, parent, stack).
          3 * white_count n colors stack + length stack + 2
          - (if stack \<noteq> [] \<and> colors (hd stack) = COLOR_WHITE then 2 else 0))", goal_cases)
  case 1
  show ?case by simp
next
  case (2 wfm n colors parent stack current rest colors1 nxt)
  have nx: "nxt \<in> {0..n - 1}" "colors1 nxt = COLOR_WHITE"
    using wait_for_scan_white[OF 2(3)] by auto
  have push: "white_count n colors1 (nxt # stack) = white_count n colors1 stack"
    by (rule white_count_push[OF nx(1)])
  show ?case
  proof (cases "colors current = COLOR_WHITE")
    case True
    have "white_count n colors1 stack < white_count n colors stack"
      by (rule white_count_less[OF subset_refl, where x = current])
         (use True 2 in \<open>auto split: if_splits\<close>)
    then show ?thesis using True nx(2) 2(1) push by simp
  next
    case False
    then have "colors1 = colors" using 2(2) by simp
    then show ?thesis using False nx(2) 2(1) push by simp
  qed
next
  case (3 wfm n colors parent stack current rest colors1)
  let ?c2 = "colors1(current := COLOR_BLACK)"
  have sub: "set rest \<subseteq> set stack" using 3(1) by auto
  have darker: "\<And>i. ?c2 i = COLOR_WHITE \<Longrightarrow> colors i = COLOR_WHITE"
    using 3(2) by (auto split: if_splits)
  show ?case
  proof (cases "colors current = COLOR_WHITE")
    case True
    have "white_count n ?c2 rest < white_count n colors stack"
      by (rule white_count_less[OF sub darker, where x = current]) (use True 3(1) in auto)
    then show ?thesis using True 3(1) by simp
  next
    case False
    have "white_count n ?c2 rest \<le> white_count n colors stack"
      by (rule white_count_le[OF sub darker])
    then show ?thesis using False 3(1) by simp
  qed
qed

declare wait_for_while.simps [simp del]

text \<open>The outer loop \<open>for (start = 0; start < process_count; start++)\<close>, with \<open>pcount\<close> for the parameter \<open>process_count\<close>.\<close>

primrec wait_for_starts :: "(int \<Rightarrow> int \<Rightarrow> int) \<Rightarrow> int \<Rightarrow> int list \<Rightarrow> (int \<Rightarrow> NodeColor) \<Rightarrow> (int \<Rightarrow> int)
                              \<Rightarrow> bool \<times> int list" where
  "wait_for_starts wfm pcount [] = (\<lambda>colors parent. (False, []))"
| "wait_for_starts wfm pcount (start # starts) = (\<lambda>colors parent.
     if colors start \<noteq> COLOR_WHITE then wait_for_starts wfm pcount starts colors parent
     else case wait_for_while wfm pcount colors parent [start] of
            (found, cycle, colors', parent') \<Rightarrow>
              if found then (True, cycle)
              else wait_for_starts wfm pcount starts colors' parent')"

text \<open>\<open>detect_cycle_in_wait_for\<close> returns the flag and the cycle (\<open>cycle[0 .. *cycle_length - 1]\<close>).\<close>

definition detect_cycle_in_wait_for :: "(int \<Rightarrow> int \<Rightarrow> int) \<Rightarrow> int \<Rightarrow> bool \<times> int list" where
  "detect_cycle_in_wait_for wfm pcount =
     wait_for_starts wfm pcount [0..pcount - 1] (\<lambda>_. COLOR_WHITE) (\<lambda>_. -1)"


section \<open>Recovery (recovery.h, recovery.c)\<close>

datatype RecoveryStrategy =
    RECOVERY_TERMINATE_ALL | RECOVERY_TERMINATE_ONE | RECOVERY_TERMINATE_LOWEST
  | RECOVERY_TERMINATE_YOUNGEST | RECOVERY_TERMINATE_OLDEST | RECOVERY_PREEMPT_RESOURCES
  | RECOVERY_ROLLBACK

datatype SelectionCriteria =
    SELECT_LOWEST_PRIORITY | SELECT_FEWEST_RESOURCES | SELECT_MOST_RESOURCES
  | SELECT_SHORTEST_RUNTIME | SELECT_LONGEST_RUNTIME | SELECT_MINIMUM_COST

text \<open>
  The records leave out the formatted texts (\<open>description\<close>, \<open>summary\<close>), which no
  decision of the program reads. \<open>actions\<close> is \<open>actions[0 .. action_count - 1]\<close>.
\<close>

record RecoveryAction =
  action_process_id :: int
  action_resource_id :: int
  action_strategy :: RecoveryStrategy
  action_success :: bool

record RecoveryResult =
  success :: bool
  actions :: "RecoveryAction list"
  processes_terminated :: int
  resources_preempted :: int
  iterations :: int

record RecoveryConfig =
  strategy :: RecoveryStrategy
  selection :: SelectionCriteria
  max_terminations :: int
  preserve_critical :: bool
  critical_priority_threshold :: int
  verbose :: bool

definition recovery_result_init :: RecoveryResult where
  "recovery_result_init =
     \<lparr>success = False, actions = [], processes_terminated = 0, resources_preempted = 0,
      iterations = 0\<rparr>"

definition recovery_config_init :: RecoveryConfig where
  "recovery_config_init =
     \<lparr>strategy = RECOVERY_TERMINATE_LOWEST, selection = SELECT_LOWEST_PRIORITY,
      max_terminations = 0, preserve_critical = True, critical_priority_threshold = 90,
      verbose = False\<rparr>"

text \<open>\<open>if (result->action_count < MAX_PROCESSES)\<close> append the action record.\<close>

definition record_action :: "RecoveryResult \<Rightarrow> RecoveryAction \<Rightarrow> RecoveryResult" where
  "record_action result action =
     (if int (length (actions result)) < MAX_PROCESSES
      then result\<lparr>actions := actions result @ [action]\<rparr> else result)"

subsection \<open>Victim selection\<close>

text \<open>The loop \<open>held += assignment_matrix[pid][r]\<close> over all resources.\<close>

definition held_units :: "RAG \<Rightarrow> int \<Rightarrow> int" where
  "held_units rag pid = fold (\<lambda>r held. held + assignment_matrix rag pid r) slots 0"

definition calculate_termination_cost :: "RAG \<Rightarrow> int \<Rightarrow> int" where
  "calculate_termination_cost rag process_id =
     (if process_id < 0 \<or> process_id \<ge> MAX_PROCESSES then 0
      else if \<not> proc_active (processes rag process_id) then 0
      else
        let cost0 = priority (processes rag process_id) * 10;
            cost1 = fold (\<lambda>r cost. cost + assignment_matrix rag process_id r * 20) slots cost0
        in fold (\<lambda>r cost.
                   if assignment_matrix rag process_id r > 0
                   then fold (\<lambda>p2 cost. if request_matrix rag p2 r > 0 then cost + 15 else cost)
                             slots cost
                   else cost)
                slots cost1)"

text \<open>The \<open>switch (criteria)\<close> that scores one candidate.\<close>

definition selection_score :: "RAG \<Rightarrow> SelectionCriteria \<Rightarrow> int \<Rightarrow> int" where
  "selection_score rag criteria pid =
     (case criteria of
        SELECT_LOWEST_PRIORITY \<Rightarrow> 100 - priority (processes rag pid)
      | SELECT_FEWEST_RESOURCES \<Rightarrow> MAX_RESOURCES - held_units rag pid
      | SELECT_MOST_RESOURCES \<Rightarrow> held_units rag pid
      | SELECT_SHORTEST_RUNTIME \<Rightarrow> pid
      | SELECT_LONGEST_RUNTIME \<Rightarrow> MAX_PROCESSES - pid
      | SELECT_MINIMUM_COST \<Rightarrow> 1000 - calculate_termination_cost rag pid)"

text \<open>
  \<open>select_victim_process\<close>: the loop carries \<open>victim\<close>, \<open>best_score\<close> and \<open>first\<close>.
  It reads neither the configuration nor \<open>is_critical_process\<close>.
\<close>

definition select_victim_process :: "RAG \<Rightarrow> DeadlockResult \<Rightarrow> SelectionCriteria \<Rightarrow> int" where
  "select_victim_process rag deadlock criteria =
     (if deadlocked_processes deadlock = [] then -1
      else fst (fold (\<lambda>pid (victim, best_score, first).
                  if \<not> proc_active (processes rag pid) then (victim, best_score, first)
                  else let score = selection_score rag criteria pid
                       in if first \<or> score > best_score then (pid, score, False)
                          else (victim, best_score, first))
                (deadlocked_processes deadlock) (-1, 0, True)))"

definition is_critical_process :: "RAG \<Rightarrow> int \<Rightarrow> int \<Rightarrow> bool" where
  "is_critical_process rag process_id priority_threshold =
     (if process_id < 0 \<or> process_id \<ge> MAX_PROCESSES then False
      else if \<not> proc_active (processes rag process_id) then False
      else priority (processes rag process_id) \<ge> priority_threshold)"

subsection \<open>Strategies\<close>

text \<open>Every strategy returns its flag, the graph it leaves and the recovery result.\<close>

definition recovery_terminate_all :: "RAG \<Rightarrow> DeadlockResult \<Rightarrow> RecoveryResult
                                      \<Rightarrow> bool \<times> RAG \<times> RecoveryResult" where
  "recovery_terminate_all rag deadlock result =
     (case fold (\<lambda>pid (g, res, terminated).
                   case rag_get_process g pid of
                     None \<Rightarrow> (g, res, terminated)
                   | Some p \<Rightarrow>
                       let res1 = record_action res
                                    \<lparr>action_process_id = pid, action_resource_id = -1,
                                     action_strategy = RECOVERY_TERMINATE_ALL, action_success = True\<rparr>;
                           g1 = snd (rag_release_all_resources g pid);
                           g2 = snd (rag_remove_process g1 pid)
                       in (g2, res1, terminated + 1))
                (deadlocked_processes deadlock) (rag, result, 0 :: int) of
        (g, res, terminated) \<Rightarrow>
          (terminated > 0, g, res\<lparr>processes_terminated := terminated, success := (terminated > 0)\<rparr>))"

definition recovery_terminate_one :: "RAG \<Rightarrow> DeadlockResult \<Rightarrow> SelectionCriteria \<Rightarrow> RecoveryResult
                                      \<Rightarrow> bool \<times> RAG \<times> RecoveryResult" where
  "recovery_terminate_one rag deadlock criteria result =
     (let victim = select_victim_process rag deadlock criteria
      in if victim < 0 then (False, rag, result)
         else case rag_get_process rag victim of
           None \<Rightarrow> (False, rag, result)
         | Some p \<Rightarrow>
             let res1 = record_action result
                          \<lparr>action_process_id = victim, action_resource_id = -1,
                           action_strategy = RECOVERY_TERMINATE_ONE, action_success = True\<rparr>;
                 (released, g1) = rag_release_all_resources rag victim;
                 g2 = snd (rag_remove_process g1 victim)
             in (True, g2, res1\<lparr>processes_terminated := 1, resources_preempted := released,
                                 success := True\<rparr>))"

text \<open>
  \<open>recovery_preempt_resources\<close>: \<open>resource_ids\<close> is \<open>None\<close> for a null pointer, and the list
  carries \<open>resource_count\<close> as its length. The state of the process becomes Blocked.
\<close>

definition recovery_preempt_resources :: "RAG \<Rightarrow> int \<Rightarrow> int list option \<Rightarrow> RecoveryResult
                                          \<Rightarrow> int \<times> RAG \<times> RecoveryResult" where
  "recovery_preempt_resources rag process_id resource_ids result =
     (if process_id < 0 \<or> process_id \<ge> MAX_PROCESSES then (0, rag, result)
      else case rag_get_process rag process_id of
        None \<Rightarrow> (0, rag, result)
      | Some p \<Rightarrow>
          let (preempted, g1, res1) =
                (case resource_ids of
                   Some (rid0 # rids) \<Rightarrow>
                     fold (\<lambda>rid (n, g, res).
                             case rag_release_resource g process_id rid of
                               (True, g') \<Rightarrow>
                                 (n + 1, g', record_action res
                                    \<lparr>action_process_id = process_id, action_resource_id = rid,
                                     action_strategy = RECOVERY_PREEMPT_RESOURCES, action_success = True\<rparr>)
                             | (False, g') \<Rightarrow> (n, g', res))
                          (rid0 # rids) (0, rag, result)
                 | _ \<Rightarrow>
                     (case rag_release_all_resources rag process_id of
                        (n, g') \<Rightarrow>
                          (n, g', record_action result
                             \<lparr>action_process_id = process_id, action_resource_id = -1,
                              action_strategy = RECOVERY_PREEMPT_RESOURCES, action_success = True\<rparr>)));
              res2 = res1\<lparr>resources_preempted := resources_preempted res1 + preempted\<rparr>;
              g2 = g1\<lparr>processes := (processes g1)
                        (process_id := (processes g1 process_id)\<lparr>state := PROCESS_BLOCKED\<rparr>)\<rparr>
          in (preempted, g2, res2))"

definition recovery_rollback_process :: "RAG \<Rightarrow> int \<Rightarrow> RecoveryResult \<Rightarrow> bool \<times> RAG \<times> RecoveryResult" where
  "recovery_rollback_process rag process_id result =
     (if process_id < 0 \<or> process_id \<ge> MAX_PROCESSES then (False, rag, result)
      else case rag_get_process rag process_id of
        None \<Rightarrow> (False, rag, result)
      | Some p \<Rightarrow>
          let (released, g1) = rag_release_all_resources rag process_id;
              g2 = fold (\<lambda>r g. snd (rag_cancel_request g process_id r)) slots g1;
              g3 = g2\<lparr>processes := (processes g2)
                        (process_id := (processes g2 process_id)\<lparr>state := PROCESS_RUNNING\<rparr>)\<rparr>;
              res1 = record_action result
                       \<lparr>action_process_id = process_id, action_resource_id = -1,
                        action_strategy = RECOVERY_ROLLBACK, action_success = True\<rparr>
          in (True, g3, res1\<lparr>resources_preempted := resources_preempted res1 + released,
                               success := True\<rparr>))"

definition recover_from_deadlock :: "RAG \<Rightarrow> DeadlockResult \<Rightarrow> RecoveryConfig
                                     \<Rightarrow> bool \<times> RAG \<times> RecoveryResult" where
  "recover_from_deadlock rag deadlock config =
     (let result = recovery_result_init
      in if \<not> deadlock_detected deadlock then (True, rag, result\<lparr>success := True\<rparr>)
         else case strategy config of
           RECOVERY_TERMINATE_ALL \<Rightarrow> recovery_terminate_all rag deadlock result
         | RECOVERY_PREEMPT_RESOURCES \<Rightarrow>
             (let victim = select_victim_process rag deadlock (selection config)
              in if victim \<ge> 0
                 then case recovery_preempt_resources rag victim None result of
                        (preempted, g, res) \<Rightarrow> (preempted > 0, g, res\<lparr>success := (preempted > 0)\<rparr>)
                 else (False, rag, result))
         | RECOVERY_ROLLBACK \<Rightarrow>
             (let victim = select_victim_process rag deadlock (selection config)
              in if victim \<ge> 0 then recovery_rollback_process rag victim result
                 else (False, rag, result))
         | _ \<Rightarrow> recovery_terminate_one rag deadlock (selection config) result)"

definition recover_default :: "RAG \<Rightarrow> DeadlockResult \<Rightarrow> bool \<times> RAG \<times> RecoveryResult" where
  "recover_default rag deadlock = recover_from_deadlock rag deadlock recovery_config_init"


section \<open>Scenario builder (simulator.c)\<close>

text \<open>\<open>%d\<close> of a number that is not negative.\<close>

fun decimal :: "nat \<Rightarrow> string" where
  "decimal n = (if n < 10 then [char_of (48 + n)] else decimal (n div 10) @ [char_of (48 + n mod 10)])"

declare decimal.simps [simp del]

text \<open>
  \<open>setup_dining_philosophers\<close>, on the graph of the simulation state (the event log and
  the flags of the simulation are left out). \<open>snprintf\<close> writes into a buffer of
  \<open>MAX_NAME_LENGTH\<close> bytes. The first loop creates philosopher i and fork i and appends
  their ids to the arrays \<open>philosophers\<close> and \<open>forks\<close>; the second loop lets philosopher i
  pick up the left fork and request the right one.
\<close>

definition dining_create :: "int \<Rightarrow> RAG \<times> int list \<times> int list \<Rightarrow> RAG \<times> int list \<times> int list" where
  "dining_create i s =
     (case s of (g, philosophers, forks) \<Rightarrow>
        let (p, g1) = rag_add_process g
              (take (MAX_NAME_LENGTH - 1) (''Philosopher_'' @ decimal (nat (i + 1)))) 50;
            (f, g2) = rag_add_resource g1
              (take (MAX_NAME_LENGTH - 1) (''Fork_'' @ decimal (nat (i + 1)))) 1
        in (g2, philosophers @ [p], forks @ [f]))"

definition dining_pick_up :: "int \<Rightarrow> int list \<Rightarrow> int list \<Rightarrow> int \<Rightarrow> RAG \<Rightarrow> RAG" where
  "dining_pick_up n philosophers forks i g =
     (let left_fork = forks ! nat i;
          right_fork = forks ! nat ((i + 1) mod n);
          g1 = snd (rag_allocate_resource g (philosophers ! nat i) left_fork)
      in snd (rag_request_resource g1 (philosophers ! nat i) right_fork))"

fun dining_pick_up_all :: "int \<Rightarrow> RAG \<times> int list \<times> int list \<Rightarrow> RAG" where
  "dining_pick_up_all n (rag1, philosophers, forks) =
     fold (dining_pick_up n philosophers forks) [0..n - 1] rag1"

definition setup_dining_philosophers :: "RAG \<Rightarrow> int \<Rightarrow> RAG" where
  "setup_dining_philosophers rag n0 =
     (if n0 < 2 then rag
      else let n = (if n0 > MAX_PROCESSES then MAX_PROCESSES else n0)
           in dining_pick_up_all n (fold dining_create [0..n - 1] (rag_reset rag, [], [])))"

section \<open>Sequences of Graph Store operations\<close>

text \<open>
  The public operations of rag.h that change the graph, as values, and the graph that a
  sequence of calls leaves when it starts from \<open>rag_init\<close>; the result flag of a call is
  dropped, so a sequence may contain calls that fail.
\<close>

datatype rag_op =
    OP_INIT
  | OP_ADD_PROCESS string int
  | OP_REMOVE_PROCESS int
  | OP_SET_PROCESS_STATE int ProcessState
  | OP_ADD_RESOURCE string int
  | OP_REMOVE_RESOURCE int
  | OP_REQUEST int int
  | OP_CANCEL_REQUEST int int
  | OP_ALLOCATE int int
  | OP_RELEASE int int
  | OP_RELEASE_ALL int

fun rag_exec :: "RAG \<Rightarrow> rag_op \<Rightarrow> RAG" where
  "rag_exec g OP_INIT = rag_init"
| "rag_exec g (OP_ADD_PROCESS name prio) = snd (rag_add_process g name prio)"
| "rag_exec g (OP_REMOVE_PROCESS p) = snd (rag_remove_process g p)"
| "rag_exec g (OP_SET_PROCESS_STATE p st) = snd (rag_set_process_state g p st)"
| "rag_exec g (OP_ADD_RESOURCE name instances) = snd (rag_add_resource g name instances)"
| "rag_exec g (OP_REMOVE_RESOURCE r) = snd (rag_remove_resource g r)"
| "rag_exec g (OP_REQUEST p r) = snd (rag_request_resource g p r)"
| "rag_exec g (OP_CANCEL_REQUEST p r) = snd (rag_cancel_request g p r)"
| "rag_exec g (OP_ALLOCATE p r) = snd (rag_allocate_resource g p r)"
| "rag_exec g (OP_RELEASE p r) = snd (rag_release_resource g p r)"
| "rag_exec g (OP_RELEASE_ALL p) = snd (rag_release_all_resources g p)"

definition rag_run :: "rag_op list \<Rightarrow> RAG" where
  "rag_run ops = foldl rag_exec rag_init ops"

text \<open>The sum over all process slots of \<open>assignment_matrix[p][r]\<close>.\<close>

definition assigned_sum :: "RAG \<Rightarrow> int \<Rightarrow> int" where
  "assigned_sum rag r = sum_list (map (\<lambda>p. assignment_matrix rag p r) slots)"


section \<open>Properties of the Graph Store\<close>

subsection \<open>Slots and failing calls\<close>

lemma set_slots: "set slots = {0..63}"
  by (simp add: slots_def)

lemma in_slots: "i \<in> set slots \<longleftrightarrow> 0 \<le> i \<and> i < 64"
  by (auto simp: slots_def)

lemma distinct_slots: "distinct slots"
  by (simp add: slots_def)

lemma slots_list:
  "slots = [0, 1, 2, 3, 4, 5, 6, 7] @
           [8, 9, 10, 11, 12, 13, 14, 15] @
           [16, 17, 18, 19, 20, 21, 22, 23] @
           [24, 25, 26, 27, 28, 29, 30, 31] @
           [32, 33, 34, 35, 36, 37, 38, 39] @
           [40, 41, 42, 43, 44, 45, 46, 47] @
           [48, 49, 50, 51, 52, 53, 54, 55] @
           [56, 57, 58, 59, 60, 61, 62, 63]"
  unfolding slots_def by (simp add: upto.simps)

lemma has_requests_iff:
  "has_requests rag p \<longleftrightarrow> (\<exists>r. 0 \<le> r \<and> r < 64 \<and> request_matrix rag p r > 0)"
  by (auto simp: has_requests_def list_ex_iff in_slots)

lemma find_slots_nonneg: "find P slots = Some s \<Longrightarrow> 0 \<le> s \<and> s < 64"
  using in_slots by (auto simp: find_Some_iff dest!: nth_mem)

lemma add_process_fail: "fst (rag_add_process g n pr) = -1 \<Longrightarrow> snd (rag_add_process g n pr) = g"
  by (auto simp: rag_add_process_def Let_def split: option.splits dest: find_slots_nonneg)

lemma remove_process_fail: "\<not> fst (rag_remove_process g p) \<Longrightarrow> snd (rag_remove_process g p) = g"
  by (auto simp: rag_remove_process_def Let_def split: if_splits)

lemma add_resource_fail: "fst (rag_add_resource g n k) = -1 \<Longrightarrow> snd (rag_add_resource g n k) = g"
  by (auto simp: rag_add_resource_def Let_def split: option.splits if_splits dest: find_slots_nonneg)

lemma remove_resource_fail: "\<not> fst (rag_remove_resource g r) \<Longrightarrow> snd (rag_remove_resource g r) = g"
  by (auto simp: rag_remove_resource_def Let_def split: if_splits)

lemma request_fail: "\<not> fst (rag_request_resource g p r) \<Longrightarrow> snd (rag_request_resource g p r) = g"
  by (auto simp: rag_request_resource_def split: option.splits if_splits)

lemma cancel_fail: "\<not> fst (rag_cancel_request g p r) \<Longrightarrow> snd (rag_cancel_request g p r) = g"
  by (auto simp: rag_cancel_request_def Let_def split: if_splits)

lemma allocate_fail: "\<not> fst (rag_allocate_resource g p r) \<Longrightarrow> snd (rag_allocate_resource g p r) = g"
  by (auto simp: rag_allocate_resource_def Let_def split: option.splits if_splits)

lemma release_fail: "\<not> fst (rag_release_resource g p r) \<Longrightarrow> snd (rag_release_resource g p r) = g"
  by (auto simp: rag_release_resource_def Let_def split: if_splits)


subsection \<open>Closed forms of the loops\<close>

lemma fold_clear_row:
  "fold (\<lambda>r g. g\<lparr>request_matrix := mat_upd (request_matrix g) s r 0,
                   assignment_matrix := mat_upd (assignment_matrix g) s r 0\<rparr>) rs g
   = g\<lparr>request_matrix := (\<lambda>p r. if p = s \<and> r \<in> set rs then 0 else request_matrix g p r),
        assignment_matrix := (\<lambda>p r. if p = s \<and> r \<in> set rs then 0 else assignment_matrix g p r)\<rparr>"
proof (induction rs arbitrary: g)
  case Nil
  show ?case by simp
next
  case (Cons a rs)
  show ?case
    by (simp only: fold_simps Cons.IH) (simp add: mat_upd_def fun_eq_iff)
qed

lemma fold_clear_col:
  "fold (\<lambda>p g. g\<lparr>request_matrix := mat_upd (request_matrix g) p s 0,
                   assignment_matrix := mat_upd (assignment_matrix g) p s 0\<rparr>) ps g
   = g\<lparr>request_matrix := (\<lambda>p r. if r = s \<and> p \<in> set ps then 0 else request_matrix g p r),
        assignment_matrix := (\<lambda>p r. if r = s \<and> p \<in> set ps then 0 else assignment_matrix g p r)\<rparr>"
proof (induction ps arbitrary: g)
  case Nil
  show ?case by simp
next
  case (Cons a ps)
  show ?case
    by (simp only: fold_simps Cons.IH) (simp add: mat_upd_def fun_eq_iff)
qed

lemma fold_clear_req_col:
  "fold (\<lambda>p g. g\<lparr>request_matrix := mat_upd (request_matrix g) p s 0\<rparr>) ps g
   = g\<lparr>request_matrix := (\<lambda>p r. if r = s \<and> p \<in> set ps then 0 else request_matrix g p r)\<rparr>"
proof (induction ps arbitrary: g)
  case Nil
  show ?case by simp
next
  case (Cons a ps)
  show ?case
    by (simp only: fold_simps Cons.IH) (simp add: mat_upd_def fun_eq_iff)
qed

lemma fold_cancel_row:
  "fold (\<lambda>r g. if request_matrix g s r > 0
                then g\<lparr>request_matrix := mat_upd (request_matrix g) s r 0\<rparr> else g) rs g
   = g\<lparr>request_matrix := (\<lambda>p r. if p = s \<and> r \<in> set rs \<and> request_matrix g p r > 0 then 0
                                 else request_matrix g p r)\<rparr>"
proof (induction rs arbitrary: g)
  case Nil
  show ?case by simp
next
  case (Cons a rs)
  show ?case
  proof (cases "request_matrix g s a > 0")
    case True
    then show ?thesis
      by (simp only: fold_simps Cons.IH if_True) (simp add: mat_upd_def fun_eq_iff)
  next
    case False
    then have "(\<lambda>p r. if p = s \<and> r \<in> set (a # rs) \<and> request_matrix g p r > 0 then 0
                     else request_matrix g p r)
             = (\<lambda>p r. if p = s \<and> r \<in> set rs \<and> request_matrix g p r > 0 then 0
                     else request_matrix g p r)"
      by (auto simp: fun_eq_iff)
    with False show ?thesis
      by (simp only: fold_simps Cons.IH if_False)
  qed
qed


lemma release_resource_closed:
  "rag_release_resource g p r =
     (if (0 \<le> p \<and> p < 64) \<and> (0 \<le> r \<and> r < 64) \<and> assignment_matrix g p r > 0
      then (True, g\<lparr>assignment_matrix := mat_upd (assignment_matrix g) p r (assignment_matrix g p r - 1),
                resources := (if res_active (resources g r)
                   then (resources g)(r := (resources g r)
                          \<lparr>available_instances := available_instances (resources g r) + 1\<rparr>)
                   else resources g)\<rparr>)
      else (False, g))"
  by (auto simp: rag_release_resource_def Let_def)

lemma release_while_closed:
  "release_while g p r n =
     (if (0 \<le> p \<and> p < 64) \<and> (0 \<le> r \<and> r < 64) \<and> assignment_matrix g p r > 0
      then (n + assignment_matrix g p r,
            g\<lparr>assignment_matrix := mat_upd (assignment_matrix g) p r 0,
              resources := (if res_active (resources g r)
                 then (resources g)(r := (resources g r)
                        \<lparr>available_instances := available_instances (resources g r) + assignment_matrix g p r\<rparr>)
                 else resources g)\<rparr>)
      else (n, g))"
proof (induction g p r n rule: release_while.induct)
  case (1 rag process_id r released)
  show ?case
  proof (cases "(0 \<le> process_id \<and> process_id < 64) \<and> (0 \<le> r \<and> r < 64) \<and> assignment_matrix rag process_id r > 0")
    case False
    then show ?thesis by (subst release_while.simps) auto
  next
    case True
    note IH = "1.IH"[OF True]
    show ?thesis
      apply (subst release_while.simps)
      apply (simp only: True if_True IH)
      using True
      apply (simp add: release_resource_closed mat_upd_def)
      apply (intro conjI impI; rule RAG.equality; simp add: fun_eq_iff)
      done
  qed
qed


lemma release_all_fold:
  assumes "distinct rs" and "0 \<le> p \<and> p < 64" and "\<forall>r\<in>set rs. 0 \<le> r \<and> r < 64"
  shows "snd (fold (\<lambda>r (released, g). release_while g p r released) rs (n, g)) =
         g\<lparr>assignment_matrix :=
              (\<lambda>p' r. if p' = p \<and> r \<in> set rs \<and> assignment_matrix g p r > 0 then 0
                       else assignment_matrix g p' r),
           resources :=
              (\<lambda>r. if r \<in> set rs \<and> assignment_matrix g p r > 0 \<and> res_active (resources g r)
                    then (resources g r)\<lparr>available_instances :=
                            available_instances (resources g r) + assignment_matrix g p r\<rparr>
                    else resources g r)\<rparr>"
  using assms
proof (induction rs arbitrary: n g)
  case Nil
  show ?case by simp
next
  case (Cons a rs)
  have d: "distinct rs" and a: "a \<notin> set rs" and ar: "0 \<le> a \<and> a < 64"
    and rs: "\<forall>r\<in>set rs. 0 \<le> r \<and> r < 64"
    using Cons.prems by auto
  obtain n' g' where step: "release_while g p a n = (n', g')"
    by (cases "release_while g p a n")
  have IH: "snd (fold (\<lambda>r (released, g). release_while g p r released) rs (n', g')) =
         g'\<lparr>assignment_matrix :=
              (\<lambda>p' r. if p' = p \<and> r \<in> set rs \<and> assignment_matrix g' p r > 0 then 0
                       else assignment_matrix g' p' r),
           resources :=
              (\<lambda>r. if r \<in> set rs \<and> assignment_matrix g' p r > 0 \<and> res_active (resources g' r)
                    then (resources g' r)\<lparr>available_instances :=
                            available_instances (resources g' r) + assignment_matrix g' p r\<rparr>
                    else resources g' r)\<rparr>"
    by (rule Cons.IH[OF d Cons.prems(2) rs])
  have g': "g' = (if assignment_matrix g p a > 0
      then g\<lparr>assignment_matrix := mat_upd (assignment_matrix g) p a 0,
              resources := (if res_active (resources g a)
                 then (resources g)(a := (resources g a)
                        \<lparr>available_instances := available_instances (resources g a) + assignment_matrix g p a\<rparr>)
                 else resources g)\<rparr>
      else g)"
    using step Cons.prems(2) ar by (simp add: release_while_closed split: if_splits)
  show ?case
    apply (simp only: fold_simps prod.case step IH)
    apply (subst g')+
    using a
    apply (cases "assignment_matrix g p a > 0"; cases "res_active (resources g a)")
       apply (rule RAG.equality; simp add: fun_eq_iff mat_upd_def; blast?)+
    done
qed

lemma release_all_closed:
  "snd (rag_release_all_resources g p) =
     (if p < 0 \<or> p \<ge> 64 then g
      else g\<lparr>assignment_matrix :=
              (\<lambda>p' r. if p' = p \<and> (0 \<le> r \<and> r < 64) \<and> assignment_matrix g p r > 0 then 0
                       else assignment_matrix g p' r),
           resources :=
              (\<lambda>r. if (0 \<le> r \<and> r < 64) \<and> assignment_matrix g p r > 0 \<and> res_active (resources g r)
                    then (resources g r)\<lparr>available_instances :=
                            available_instances (resources g r) + assignment_matrix g p r\<rparr>
                    else resources g r)\<rparr>)"
proof (cases "p < 0 \<or> p \<ge> 64")
  case True
  then show ?thesis by (auto simp: rag_release_all_resources_def)
next
  case False
  then have p: "0 \<le> p \<and> p < 64" by auto
  have "snd (rag_release_all_resources g p) =
        snd (fold (\<lambda>r (released, g). release_while g p r released) slots (0, g))"
    using False by (simp add: rag_release_all_resources_def)
  also have "\<dots> = g\<lparr>assignment_matrix :=
              (\<lambda>p' r. if p' = p \<and> r \<in> set slots \<and> assignment_matrix g p r > 0 then 0
                       else assignment_matrix g p' r),
           resources :=
              (\<lambda>r. if r \<in> set slots \<and> assignment_matrix g p r > 0 \<and> res_active (resources g r)
                    then (resources g r)\<lparr>available_instances :=
                            available_instances (resources g r) + assignment_matrix g p r\<rparr>
                    else resources g r)\<rparr>"
    by (rule release_all_fold[OF distinct_slots p]) (simp add: in_slots)
  finally show ?thesis using False by (simp add: in_slots)
qed


subsection \<open>Closed forms of the operations\<close>

lemma add_process_closed:
  "rag_add_process g name prio =
     (case find (\<lambda>i. \<not> proc_active (processes g i)) slots of
        None \<Rightarrow> (-1, g)
      | Some slot \<Rightarrow>
          (slot, g\<lparr>processes := (processes g)
                     (slot := \<lparr>proc_id = slot, proc_name = take (MAX_NAME_LENGTH - 1) name,
                               state = PROCESS_RUNNING, priority = prio, proc_active = True\<rparr>),
                   request_matrix := (\<lambda>p r. if p = slot \<and> 0 \<le> r \<and> r < 64 then 0
                                            else request_matrix g p r),
                   assignment_matrix := (\<lambda>p r. if p = slot \<and> 0 \<le> r \<and> r < 64 then 0
                                               else assignment_matrix g p r),
                   process_count := process_count g + 1\<rparr>))"
  by (simp add: rag_add_process_def Let_def fold_clear_row in_slots cong: if_cong split: option.splits)

lemma add_resource_closed:
  "rag_add_resource g name instances =
     (if instances \<le> 0 then (-1, g)
      else case find (\<lambda>i. \<not> res_active (resources g i)) slots of
        None \<Rightarrow> (-1, g)
      | Some slot \<Rightarrow>
          (slot, g\<lparr>resources := (resources g)
                     (slot := \<lparr>res_id = slot, res_name = take (MAX_NAME_LENGTH - 1) name,
                               total_instances = instances, available_instances = instances,
                               res_active = True\<rparr>),
                   request_matrix := (\<lambda>p r. if r = slot \<and> 0 \<le> p \<and> p < 64 then 0
                                            else request_matrix g p r),
                   assignment_matrix := (\<lambda>p r. if r = slot \<and> 0 \<le> p \<and> p < 64 then 0
                                               else assignment_matrix g p r),
                   resource_count := resource_count g + 1\<rparr>))"
  by (simp add: rag_add_resource_def Let_def fold_clear_col in_slots cong: if_cong split: option.splits)

lemma remove_process_closed:
  "rag_remove_process g p =
     (if p < 0 \<or> p \<ge> 64 then (False, g)
      else if \<not> proc_active (processes g p) then (False, g)
      else (True, g\<lparr>assignment_matrix :=
                       (\<lambda>p' r. if p' = p \<and> (0 \<le> r \<and> r < 64) \<and> assignment_matrix g p r > 0 then 0
                                else assignment_matrix g p' r),
                    resources :=
                       (\<lambda>r. if (0 \<le> r \<and> r < 64) \<and> assignment_matrix g p r > 0
                                 \<and> res_active (resources g r)
                             then (resources g r)\<lparr>available_instances :=
                                     available_instances (resources g r) + assignment_matrix g p r\<rparr>
                             else resources g r),
                    request_matrix :=
                       (\<lambda>p' r. if p' = p \<and> (0 \<le> r \<and> r < 64) \<and> request_matrix g p' r > 0 then 0
                                else request_matrix g p' r),
                    processes := (processes g)
                       (p := (processes g p)\<lparr>proc_active := False, proc_id := -1\<rparr>),
                    process_count := process_count g - 1\<rparr>))"
  by (simp add: rag_remove_process_def Let_def fold_cancel_row release_all_closed in_slots cong: if_cong)

lemma remove_resource_closed:
  "rag_remove_resource g r =
     (if r < 0 \<or> r \<ge> 64 then (False, g)
      else if \<not> res_active (resources g r) then (False, g)
      else if (\<exists>p. 0 \<le> p \<and> p < 64 \<and> assignment_matrix g p r > 0) then (False, g)
      else (True, g\<lparr>request_matrix := (\<lambda>p r'. if r' = r \<and> 0 \<le> p \<and> p < 64 then 0
                                                else request_matrix g p r'),
                    resources := (resources g)
                       (r := (resources g r)\<lparr>res_active := False, res_id := -1\<rparr>),
                    resource_count := resource_count g - 1\<rparr>))"
  by (auto simp: rag_remove_resource_def Let_def fold_clear_req_col in_slots list_ex_iff cong: if_cong)

lemmas rag_eval =
  rag_run_def rag_init_def add_process_closed add_resource_closed remove_process_closed
  remove_resource_closed rag_request_resource_def rag_cancel_request_def
  rag_allocate_resource_def rag_release_resource_def rag_set_process_state_def
  rag_get_process_def rag_get_resource_def has_requests_def mat_upd_def Let_def
  release_all_closed

subsection \<open>Instance accounting\<close>

text \<open>
  What every graph built by the operations satisfies: entries of the assignment matrix are
  not negative, entries of the request matrix are 0 or 1, an edge joins an active process and
  an active resource, and the instances of an active resource are accounted for.
\<close>

definition edges_ok :: "RAG \<Rightarrow> bool" where
  "edges_ok g \<longleftrightarrow>
     (\<forall>p r. 0 \<le> p \<and> p < 64 \<and> 0 \<le> r \<and> r < 64 \<longrightarrow>
        0 \<le> assignment_matrix g p r
      \<and> (0 < assignment_matrix g p r \<longrightarrow> proc_active (processes g p) \<and> res_active (resources g r))
      \<and> (request_matrix g p r = 0 \<or> request_matrix g p r = 1)
      \<and> (0 < request_matrix g p r \<longrightarrow> proc_active (processes g p) \<and> res_active (resources g r)))"

definition counts_ok :: "RAG \<Rightarrow> bool" where
  "counts_ok g \<longleftrightarrow>
     (\<forall>r. 0 \<le> r \<and> r < 64 \<and> res_active (resources g r) \<longrightarrow>
        0 \<le> available_instances (resources g r)
      \<and> available_instances (resources g r) + assigned_sum g r = total_instances (resources g r))"

definition rag_inv :: "RAG \<Rightarrow> bool" where
  "rag_inv g \<longleftrightarrow> edges_ok g \<and> counts_ok g"

lemma assigned_sum_alt: "assigned_sum g r = (\<Sum>p = 0..63. assignment_matrix g p r)"
  unfolding assigned_sum_def
  by (simp add: sum_list_distinct_conv_sum_set distinct_slots set_slots)

lemma sum_slot_upd:
  assumes "0 \<le> p0" and "p0 < (64::int)"
  shows "(\<Sum>p = 0..63. if p = p0 then v else f p) = (\<Sum>p = 0..63. f p) - f p0 + (v::int)"
proof -
  have m: "p0 \<in> {0..63}" using assms by auto
  have "(\<Sum>p = 0..63. if p = p0 then v else f p)
        = v + (\<Sum>p \<in> {0..63} - {p0}. if p = p0 then v else f p)"
    by (subst sum.remove[OF _ m]) auto
  also have "(\<Sum>p \<in> {0..63} - {p0}. if p = p0 then v else f p) = (\<Sum>p \<in> {0..63} - {p0}. f p)"
    by (rule sum.cong) auto
  also have "(\<Sum>p = 0..63. f p) = f p0 + (\<Sum>p \<in> {0..63} - {p0}. f p)"
    by (subst sum.remove[OF _ m]) auto
  ultimately show ?thesis by simp
qed

lemma sum_slot_cong:
  "(\<And>p::int. 0 \<le> p \<Longrightarrow> p < 64 \<Longrightarrow> f p = h p) \<Longrightarrow> (\<Sum>p = 0..63. f p) = (\<Sum>p = 0..63. (h p :: int))"
  by (rule sum.cong) auto

lemma sum_slot_zero:
  "(\<And>p::int. 0 \<le> p \<Longrightarrow> p < 64 \<Longrightarrow> f p = 0) \<Longrightarrow> (\<Sum>p = 0..63. (f p :: int)) = 0"
  by (rule sum.neutral) auto

lemma inv_init: "rag_inv rag_init"
  by (simp add: rag_inv_def edges_ok_def counts_ok_def rag_init_def)

lemma inactive_row_zero:
  "edges_ok g \<Longrightarrow> 0 \<le> p \<Longrightarrow> p < 64 \<Longrightarrow> 0 \<le> r \<Longrightarrow> r < 64 \<Longrightarrow>
   \<not> proc_active (processes g p) \<Longrightarrow> assignment_matrix g p r = 0 \<and> request_matrix g p r = 0"
  unfolding edges_ok_def by force

lemma inactive_col_zero:
  "edges_ok g \<Longrightarrow> 0 \<le> p \<Longrightarrow> p < 64 \<Longrightarrow> 0 \<le> r \<Longrightarrow> r < 64 \<Longrightarrow>
   \<not> res_active (resources g r) \<Longrightarrow> assignment_matrix g p r = 0 \<and> request_matrix g p r = 0"
  unfolding edges_ok_def by force

lemma inv_add_process:
  assumes "rag_inv g"
  shows "rag_inv (snd (rag_add_process g name prio))"
proof (cases "find (\<lambda>i. \<not> proc_active (processes g i)) slots")
  case None
  then show ?thesis using assms by (simp add: add_process_closed)
next
  case (Some s)
  have s: "0 \<le> s \<and> s < 64" and inact: "\<not> proc_active (processes g s)"
    using Some find_slots_nonneg[OF Some] by (auto simp: find_Some_iff)
  have e: "edges_ok g" and c: "counts_ok g" using assms by (auto simp: rag_inv_def)
  let ?g' = "snd (rag_add_process g name prio)"
  have A: "\<And>p r. 0 \<le> p \<Longrightarrow> p < 64 \<Longrightarrow> 0 \<le> r \<Longrightarrow> r < 64 \<Longrightarrow>
        assignment_matrix ?g' p r = assignment_matrix g p r"
    using inactive_row_zero[OF e _ _ _ _ inact] s by (simp add: add_process_closed Some)
  have Q: "\<And>p r. 0 \<le> p \<Longrightarrow> p < 64 \<Longrightarrow> 0 \<le> r \<Longrightarrow> r < 64 \<Longrightarrow>
        request_matrix ?g' p r = request_matrix g p r"
    using inactive_row_zero[OF e _ _ _ _ inact] s by (simp add: add_process_closed Some)
  have R: "resources ?g' = resources g" by (simp add: add_process_closed Some)
  have P: "\<And>p. proc_active (processes g p) \<Longrightarrow> proc_active (processes ?g' p)"
    by (simp add: add_process_closed Some)
  have "edges_ok ?g'"
    unfolding edges_ok_def
  proof (intro allI impI)
    fix p r :: int
    assume pr: "0 \<le> p \<and> p < 64 \<and> 0 \<le> r \<and> r < 64"
    show "0 \<le> assignment_matrix ?g' p r
      \<and> (0 < assignment_matrix ?g' p r \<longrightarrow> proc_active (processes ?g' p) \<and> res_active (resources ?g' r))
      \<and> (request_matrix ?g' p r = 0 \<or> request_matrix ?g' p r = 1)
      \<and> (0 < request_matrix ?g' p r \<longrightarrow> proc_active (processes ?g' p) \<and> res_active (resources ?g' r))"
      using e[unfolded edges_ok_def, rule_format, OF pr] P[of p] pr
      by (auto simp: A Q R)
  qed
  moreover have "\<And>r. 0 \<le> r \<Longrightarrow> r < 64 \<Longrightarrow> assigned_sum ?g' r = assigned_sum g r"
    unfolding assigned_sum_alt by (rule sum_slot_cong) (simp add: A)
  then have "counts_ok ?g'"
    using c unfolding counts_ok_def by (simp add: R)
  ultimately show ?thesis by (simp add: rag_inv_def)
qed


lemma inv_add_resource:
  assumes "rag_inv g"
  shows "rag_inv (snd (rag_add_resource g name k))"
proof (cases "k \<le> 0 \<or> find (\<lambda>i. \<not> res_active (resources g i)) slots = None")
  case True
  then show ?thesis using assms by (auto simp: add_resource_closed)
next
  case False
  then obtain s where Some: "find (\<lambda>i. \<not> res_active (resources g i)) slots = Some s" and k: "0 < k"
    by auto
  have s: "0 \<le> s \<and> s < 64" and inact: "\<not> res_active (resources g s)"
    using Some find_slots_nonneg[OF Some] by (auto simp: find_Some_iff)
  have e: "edges_ok g" and c: "counts_ok g" using assms by (auto simp: rag_inv_def)
  let ?g' = "snd (rag_add_resource g name k)"
  have A: "\<And>p r. 0 \<le> p \<Longrightarrow> p < 64 \<Longrightarrow> 0 \<le> r \<Longrightarrow> r < 64 \<Longrightarrow>
        assignment_matrix ?g' p r = assignment_matrix g p r"
    using inactive_col_zero[OF e _ _ _ _ inact] s k by (simp add: add_resource_closed Some)
  have Q: "\<And>p r. 0 \<le> p \<Longrightarrow> p < 64 \<Longrightarrow> 0 \<le> r \<Longrightarrow> r < 64 \<Longrightarrow>
        request_matrix ?g' p r = request_matrix g p r"
    using inactive_col_zero[OF e _ _ _ _ inact] s k by (simp add: add_resource_closed Some)
  have P: "processes ?g' = processes g" using k by (simp add: add_resource_closed Some)
  have R: "\<And>r. r \<noteq> s \<Longrightarrow> resources ?g' r = resources g r"
    using k by (simp add: add_resource_closed Some)
  have Rs: "res_active (resources ?g' s)" "available_instances (resources ?g' s) = k"
    "total_instances (resources ?g' s) = k"
    using k by (simp_all add: add_resource_closed Some)
  have "edges_ok ?g'"
    unfolding edges_ok_def
  proof (intro allI impI)
    fix p r :: int
    assume pr: "0 \<le> p \<and> p < 64 \<and> 0 \<le> r \<and> r < 64"
    show "0 \<le> assignment_matrix ?g' p r
      \<and> (0 < assignment_matrix ?g' p r \<longrightarrow> proc_active (processes ?g' p) \<and> res_active (resources ?g' r))
      \<and> (request_matrix ?g' p r = 0 \<or> request_matrix ?g' p r = 1)
      \<and> (0 < request_matrix ?g' p r \<longrightarrow> proc_active (processes ?g' p) \<and> res_active (resources ?g' r))"
      using e[unfolded edges_ok_def, rule_format, OF pr] pr R[of r] Rs(1)
      by (cases "r = s") (auto simp: A Q P)
  qed
  moreover have sums: "\<And>r. 0 \<le> r \<Longrightarrow> r < 64 \<Longrightarrow> assigned_sum ?g' r = assigned_sum g r"
    unfolding assigned_sum_alt by (rule sum_slot_cong) (simp add: A)
  have "assigned_sum g s = 0"
    unfolding assigned_sum_alt
    by (rule sum_slot_zero) (use inactive_col_zero[OF e _ _ _ _ inact] s in auto)
  then have "counts_ok ?g'"
    unfolding counts_ok_def
  proof (intro allI impI)
    fix r :: int
    assume z: "assigned_sum g s = 0"
      and r: "0 \<le> r \<and> r < 64 \<and> res_active (resources ?g' r)"
    show "0 \<le> available_instances (resources ?g' r)
       \<and> available_instances (resources ?g' r) + assigned_sum ?g' r = total_instances (resources ?g' r)"
    proof (cases "r = s")
      case True
      then show ?thesis using Rs sums[of s] s z k by simp
    next
      case False
      then show ?thesis
        using c[unfolded counts_ok_def, rule_format, of r] r R[OF False] sums[of r] by simp
    qed
  qed
  ultimately show ?thesis by (simp add: rag_inv_def)
qed


lemma assigned_sum_upd:
  assumes "0 \<le> p" and "p < 64"
    and "\<And>p'. 0 \<le> p' \<Longrightarrow> p' < 64 \<Longrightarrow>
           assignment_matrix g' p' r = (if p' = p then v else assignment_matrix g p' r)"
  shows "assigned_sum g' r = assigned_sum g r - assignment_matrix g p r + v"
proof -
  have "assigned_sum g' r = (\<Sum>p' = 0..63. if p' = p then v else assignment_matrix g p' r)"
    unfolding assigned_sum_alt by (rule sum_slot_cong) (rule assms(3))
  then show ?thesis
    by (simp add: sum_slot_upd[OF assms(1,2)] assigned_sum_alt)
qed

lemma assigned_sum_same:
  assumes "\<And>p'. 0 \<le> p' \<Longrightarrow> p' < 64 \<Longrightarrow> assignment_matrix g' p' r = assignment_matrix g p' r"
  shows "assigned_sum g' r = assigned_sum g r"
  unfolding assigned_sum_alt by (rule sum_slot_cong) (rule assms)

lemma inv_allocate:
  assumes "rag_inv g"
  shows "rag_inv (snd (rag_allocate_resource g p r))"
proof (cases "fst (rag_allocate_resource g p r)")
  case False
  then show ?thesis using assms allocate_fail by simp
next
  case True
  have e: "edges_ok g" and c: "counts_ok g" using assms by (auto simp: rag_inv_def)
  have ok: "0 \<le> p \<and> p < 64 \<and> 0 \<le> r \<and> r < 64" "proc_active (processes g p)"
    "res_active (resources g r)" "0 < available_instances (resources g r)"
    using True
    by (auto simp: rag_allocate_resource_def rag_get_process_def rag_get_resource_def
             split: option.splits if_splits)
  let ?g' = "snd (rag_allocate_resource g p r)"
  have A: "assignment_matrix ?g' = mat_upd (assignment_matrix g) p r (assignment_matrix g p r + 1)"
    using ok by (simp add: rag_allocate_resource_def rag_get_process_def rag_get_resource_def Let_def)
  have Q: "request_matrix ?g' = mat_upd (request_matrix g) p r 0"
    using ok by (simp add: rag_allocate_resource_def rag_get_process_def rag_get_resource_def Let_def)
  have R: "resources ?g' = (resources g)(r := (resources g r)
              \<lparr>available_instances := available_instances (resources g r) - 1\<rparr>)"
    using ok by (simp add: rag_allocate_resource_def rag_get_process_def rag_get_resource_def Let_def)
  have P: "\<And>q. proc_active (processes ?g' q) = proc_active (processes g q)"
    using ok by (simp add: rag_allocate_resource_def rag_get_process_def rag_get_resource_def Let_def)
  have "edges_ok ?g'"
    unfolding edges_ok_def
  proof (intro allI impI)
    fix p' r' :: int
    assume pr: "0 \<le> p' \<and> p' < 64 \<and> 0 \<le> r' \<and> r' < 64"
    show "0 \<le> assignment_matrix ?g' p' r'
      \<and> (0 < assignment_matrix ?g' p' r' \<longrightarrow> proc_active (processes ?g' p') \<and> res_active (resources ?g' r'))
      \<and> (request_matrix ?g' p' r' = 0 \<or> request_matrix ?g' p' r' = 1)
      \<and> (0 < request_matrix ?g' p' r' \<longrightarrow> proc_active (processes ?g' p') \<and> res_active (resources ?g' r'))"
      using e[unfolded edges_ok_def, rule_format, OF pr] ok
      by (auto simp: A Q R P mat_upd_def)
  qed
  moreover have "counts_ok ?g'"
    unfolding counts_ok_def
  proof (intro allI impI)
    fix r' :: int
    assume r': "0 \<le> r' \<and> r' < 64 \<and> res_active (resources ?g' r')"
    show "0 \<le> available_instances (resources ?g' r')
       \<and> available_instances (resources ?g' r') + assigned_sum ?g' r' = total_instances (resources ?g' r')"
    proof (cases "r' = r")
      case True
      have "assigned_sum ?g' r = assigned_sum g r - assignment_matrix g p r + (assignment_matrix g p r + 1)"
        by (rule assigned_sum_upd) (use ok in \<open>auto simp: A mat_upd_def\<close>)
      then show ?thesis
        using True c[unfolded counts_ok_def, rule_format, of r] ok by (simp add: R)
    next
      case False
      have "assigned_sum ?g' r' = assigned_sum g r'"
        by (rule assigned_sum_same) (use False in \<open>simp add: A mat_upd_def\<close>)
      then show ?thesis
        using False c[unfolded counts_ok_def, rule_format, of r'] r' by (simp add: R)
    qed
  qed
  ultimately show ?thesis by (simp add: rag_inv_def)
qed

lemma inv_release:
  assumes "rag_inv g"
  shows "rag_inv (snd (rag_release_resource g p r))"
proof (cases "fst (rag_release_resource g p r)")
  case False
  then show ?thesis using assms release_fail by simp
next
  case True
  have e: "edges_ok g" and c: "counts_ok g" using assms by (auto simp: rag_inv_def)
  have ok: "0 \<le> p \<and> p < 64 \<and> 0 \<le> r \<and> r < 64" "0 < assignment_matrix g p r"
    using True by (auto simp: release_resource_closed split: if_splits)
  have act: "proc_active (processes g p)" "res_active (resources g r)"
    using e[unfolded edges_ok_def, rule_format, OF ok(1)] ok(2) by auto
  let ?g' = "snd (rag_release_resource g p r)"
  have A: "assignment_matrix ?g' = mat_upd (assignment_matrix g) p r (assignment_matrix g p r - 1)"
    using ok by (simp add: release_resource_closed)
  have Q: "request_matrix ?g' = request_matrix g"
    using ok by (simp add: release_resource_closed)
  have R: "resources ?g' = (resources g)(r := (resources g r)
              \<lparr>available_instances := available_instances (resources g r) + 1\<rparr>)"
    using ok act by (simp add: release_resource_closed)
  have P: "processes ?g' = processes g"
    using ok by (simp add: release_resource_closed)
  have "edges_ok ?g'"
    unfolding edges_ok_def
  proof (intro allI impI)
    fix p' r' :: int
    assume pr: "0 \<le> p' \<and> p' < 64 \<and> 0 \<le> r' \<and> r' < 64"
    show "0 \<le> assignment_matrix ?g' p' r'
      \<and> (0 < assignment_matrix ?g' p' r' \<longrightarrow> proc_active (processes ?g' p') \<and> res_active (resources ?g' r'))
      \<and> (request_matrix ?g' p' r' = 0 \<or> request_matrix ?g' p' r' = 1)
      \<and> (0 < request_matrix ?g' p' r' \<longrightarrow> proc_active (processes ?g' p') \<and> res_active (resources ?g' r'))"
      using e[unfolded edges_ok_def, rule_format, OF pr] ok act
      by (auto simp: A Q R P mat_upd_def)
  qed
  moreover have "counts_ok ?g'"
    unfolding counts_ok_def
  proof (intro allI impI)
    fix r' :: int
    assume r': "0 \<le> r' \<and> r' < 64 \<and> res_active (resources ?g' r')"
    show "0 \<le> available_instances (resources ?g' r')
       \<and> available_instances (resources ?g' r') + assigned_sum ?g' r' = total_instances (resources ?g' r')"
    proof (cases "r' = r")
      case True
      have "assigned_sum ?g' r = assigned_sum g r - assignment_matrix g p r + (assignment_matrix g p r - 1)"
        by (rule assigned_sum_upd) (use ok in \<open>auto simp: A mat_upd_def\<close>)
      then show ?thesis
        using True c[unfolded counts_ok_def, rule_format, of r] ok act by (simp add: R)
    next
      case False
      have "assigned_sum ?g' r' = assigned_sum g r'"
        by (rule assigned_sum_same) (use False in \<open>simp add: A mat_upd_def\<close>)
      then show ?thesis
        using False c[unfolded counts_ok_def, rule_format, of r'] r' by (simp add: R)
    qed
  qed
  ultimately show ?thesis by (simp add: rag_inv_def)
qed


lemma inv_release_all:
  assumes "rag_inv g"
  shows "rag_inv (snd (rag_release_all_resources g p))"
proof (cases "p < 0 \<or> p \<ge> 64")
  case True
  then show ?thesis using assms by (simp add: release_all_closed)
next
  case False
  then have p: "0 \<le> p" "p < 64" by auto
  have e: "edges_ok g" and c: "counts_ok g" using assms by (auto simp: rag_inv_def)
  let ?g' = "snd (rag_release_all_resources g p)"
  have A: "\<And>p' r. 0 \<le> r \<Longrightarrow> r < 64 \<Longrightarrow> assignment_matrix ?g' p' r =
             (if p' = p \<and> assignment_matrix g p r > 0 then 0 else assignment_matrix g p' r)"
    using False by (simp add: release_all_closed)
  have Q: "request_matrix ?g' = request_matrix g"
    using False by (simp add: release_all_closed)
  have R: "\<And>r. 0 \<le> r \<Longrightarrow> r < 64 \<Longrightarrow> resources ?g' r =
             (if assignment_matrix g p r > 0 \<and> res_active (resources g r)
              then (resources g r)\<lparr>available_instances :=
                      available_instances (resources g r) + assignment_matrix g p r\<rparr>
              else resources g r)"
    using False by (simp add: release_all_closed)
  have P: "processes ?g' = processes g"
    using False by (simp add: release_all_closed)
  have "edges_ok ?g'"
    unfolding edges_ok_def
  proof (intro allI impI)
    fix p' r' :: int
    assume pr: "0 \<le> p' \<and> p' < 64 \<and> 0 \<le> r' \<and> r' < 64"
    show "0 \<le> assignment_matrix ?g' p' r'
      \<and> (0 < assignment_matrix ?g' p' r' \<longrightarrow> proc_active (processes ?g' p') \<and> res_active (resources ?g' r'))
      \<and> (request_matrix ?g' p' r' = 0 \<or> request_matrix ?g' p' r' = 1)
      \<and> (0 < request_matrix ?g' p' r' \<longrightarrow> proc_active (processes ?g' p') \<and> res_active (resources ?g' r'))"
      using e[unfolded edges_ok_def, rule_format, OF pr] pr
      by (auto simp: A Q R P)
  qed
  moreover have "counts_ok ?g'"
    unfolding counts_ok_def
  proof (intro allI impI)
    fix r :: int
    assume r: "0 \<le> r \<and> r < 64 \<and> res_active (resources ?g' r)"
    then have act: "res_active (resources g r)" by (auto simp: R split: if_splits)
    have nn: "0 \<le> assignment_matrix g p r"
      using e[unfolded edges_ok_def, rule_format, of p r] p r by auto
    have "assigned_sum ?g' r = assigned_sum g r - assignment_matrix g p r + 0"
      by (rule assigned_sum_upd[OF p]) (use r nn in \<open>auto simp: A\<close>)
    then show "0 \<le> available_instances (resources ?g' r)
       \<and> available_instances (resources ?g' r) + assigned_sum ?g' r = total_instances (resources ?g' r)"
      using c[unfolded counts_ok_def, rule_format, of r] r act nn by (auto simp: R)
  qed
  ultimately show ?thesis by (simp add: rag_inv_def)
qed

lemma inv_remove_process:
  assumes "rag_inv g"
  shows "rag_inv (snd (rag_remove_process g p))"
proof (cases "fst (rag_remove_process g p)")
  case False
  then show ?thesis using assms remove_process_fail by simp
next
  case True
  then have p: "0 \<le> p" "p < 64" and pa: "proc_active (processes g p)"
    by (auto simp: remove_process_closed split: if_splits)
  have e: "edges_ok g" and c: "counts_ok g" using assms by (auto simp: rag_inv_def)
  let ?g' = "snd (rag_remove_process g p)"
  have A: "\<And>p' r. 0 \<le> r \<Longrightarrow> r < 64 \<Longrightarrow> assignment_matrix ?g' p' r =
             (if p' = p \<and> assignment_matrix g p r > 0 then 0 else assignment_matrix g p' r)"
    using p pa by (simp add: remove_process_closed)
  have Q: "\<And>p' r. 0 \<le> r \<Longrightarrow> r < 64 \<Longrightarrow> request_matrix ?g' p' r =
             (if p' = p \<and> request_matrix g p r > 0 then 0 else request_matrix g p' r)"
    using p pa by (auto simp: remove_process_closed)
  have R: "\<And>r. 0 \<le> r \<Longrightarrow> r < 64 \<Longrightarrow> resources ?g' r =
             (if assignment_matrix g p r > 0 \<and> res_active (resources g r)
              then (resources g r)\<lparr>available_instances :=
                      available_instances (resources g r) + assignment_matrix g p r\<rparr>
              else resources g r)"
    using p pa by (simp add: remove_process_closed)
  have P: "\<And>q. q \<noteq> p \<Longrightarrow> processes ?g' q = processes g q"
    using p pa by (simp add: remove_process_closed)
  have "edges_ok ?g'"
    unfolding edges_ok_def
  proof (intro allI impI)
    fix p' r' :: int
    assume pr: "0 \<le> p' \<and> p' < 64 \<and> 0 \<le> r' \<and> r' < 64"
    show "0 \<le> assignment_matrix ?g' p' r'
      \<and> (0 < assignment_matrix ?g' p' r' \<longrightarrow> proc_active (processes ?g' p') \<and> res_active (resources ?g' r'))
      \<and> (request_matrix ?g' p' r' = 0 \<or> request_matrix ?g' p' r' = 1)
      \<and> (0 < request_matrix ?g' p' r' \<longrightarrow> proc_active (processes ?g' p') \<and> res_active (resources ?g' r'))"
      using e[unfolded edges_ok_def, rule_format, OF pr] pr P[of p']
      by (cases "p' = p") (auto simp: A Q R)
  qed
  moreover have "counts_ok ?g'"
    unfolding counts_ok_def
  proof (intro allI impI)
    fix r :: int
    assume r: "0 \<le> r \<and> r < 64 \<and> res_active (resources ?g' r)"
    then have act: "res_active (resources g r)" by (auto simp: R split: if_splits)
    have nn: "0 \<le> assignment_matrix g p r"
      using e[unfolded edges_ok_def, rule_format, of p r] p r by auto
    have "assigned_sum ?g' r = assigned_sum g r - assignment_matrix g p r + 0"
      by (rule assigned_sum_upd[OF p]) (use r nn in \<open>auto simp: A\<close>)
    then show "0 \<le> available_instances (resources ?g' r)
       \<and> available_instances (resources ?g' r) + assigned_sum ?g' r = total_instances (resources ?g' r)"
      using c[unfolded counts_ok_def, rule_format, of r] r act nn by (auto simp: R)
  qed
  ultimately show ?thesis by (simp add: rag_inv_def)
qed

lemma inv_remove_resource:
  assumes "rag_inv g"
  shows "rag_inv (snd (rag_remove_resource g r))"
proof (cases "fst (rag_remove_resource g r)")
  case False
  then show ?thesis using assms remove_resource_fail by simp
next
  case True
  then have r: "0 \<le> r" "r < 64" and ra: "res_active (resources g r)"
    and free: "\<not> (\<exists>p. 0 \<le> p \<and> p < 64 \<and> assignment_matrix g p r > 0)"
    by (auto simp: remove_resource_closed split: if_splits)
  have e: "edges_ok g" and c: "counts_ok g" using assms by (auto simp: rag_inv_def)
  let ?g' = "snd (rag_remove_resource g r)"
  have eq: "?g' = g\<lparr>request_matrix := (\<lambda>p r'. if r' = r \<and> 0 \<le> p \<and> p < 64 then 0
                                                else request_matrix g p r'),
                    resources := (resources g)
                       (r := (resources g r)\<lparr>res_active := False, res_id := -1\<rparr>),
                    resource_count := resource_count g - 1\<rparr>"
    using True by (auto simp: remove_resource_closed split: if_splits)
  have A: "assignment_matrix ?g' = assignment_matrix g"
    by (simp add: eq)
  have Q: "\<And>p r'. 0 \<le> p \<Longrightarrow> p < 64 \<Longrightarrow> request_matrix ?g' p r' =
             (if r' = r then 0 else request_matrix g p r')"
    by (simp add: eq)
  have R: "\<And>r'. r' \<noteq> r \<Longrightarrow> resources ?g' r' = resources g r'"
    by (simp add: eq)
  have Rr: "\<not> res_active (resources ?g' r)"
    by (simp add: eq)
  have P: "processes ?g' = processes g"
    by (simp add: eq)
  have "edges_ok ?g'"
    unfolding edges_ok_def
  proof (intro allI impI)
    fix p' r' :: int
    assume pr: "0 \<le> p' \<and> p' < 64 \<and> 0 \<le> r' \<and> r' < 64"
    show "0 \<le> assignment_matrix ?g' p' r'
      \<and> (0 < assignment_matrix ?g' p' r' \<longrightarrow> proc_active (processes ?g' p') \<and> res_active (resources ?g' r'))
      \<and> (request_matrix ?g' p' r' = 0 \<or> request_matrix ?g' p' r' = 1)
      \<and> (0 < request_matrix ?g' p' r' \<longrightarrow> proc_active (processes ?g' p') \<and> res_active (resources ?g' r'))"
      using e[unfolded edges_ok_def, rule_format, OF pr] pr R[of r'] free
      by (cases "r' = r") (auto simp: A Q P)
  qed
  moreover have "counts_ok ?g'"
    unfolding counts_ok_def
  proof (intro allI impI)
    fix r' :: int
    assume r': "0 \<le> r' \<and> r' < 64 \<and> res_active (resources ?g' r')"
    then have ne: "r' \<noteq> r" using Rr by auto
    have "assigned_sum ?g' r' = assigned_sum g r'"
      by (rule assigned_sum_same) (simp add: A)
    then show "0 \<le> available_instances (resources ?g' r')
       \<and> available_instances (resources ?g' r') + assigned_sum ?g' r' = total_instances (resources ?g' r')"
      using c[unfolded counts_ok_def, rule_format, of r'] r' R[OF ne] by simp
  qed
  ultimately show ?thesis by (simp add: rag_inv_def)
qed

text \<open>Operations that change neither the assignment matrix nor the resources.\<close>

lemma inv_frame:
  assumes "rag_inv g"
    and "assignment_matrix g' = assignment_matrix g" and "resources g' = resources g"
    and "\<And>q. proc_active (processes g' q) = proc_active (processes g q)"
    and "\<And>p r. 0 \<le> p \<and> p < 64 \<and> 0 \<le> r \<and> r < 64 \<Longrightarrow>
           request_matrix g' p r = request_matrix g p r \<or> request_matrix g' p r = 0
           \<or> (request_matrix g' p r = 1 \<and> proc_active (processes g p) \<and> res_active (resources g r))"
  shows "rag_inv g'"
proof -
  have e: "edges_ok g" and c: "counts_ok g" using assms(1) by (auto simp: rag_inv_def)
  have "edges_ok g'"
    unfolding edges_ok_def
  proof (intro allI impI)
    fix p r :: int
    assume pr: "0 \<le> p \<and> p < 64 \<and> 0 \<le> r \<and> r < 64"
    show "0 \<le> assignment_matrix g' p r
      \<and> (0 < assignment_matrix g' p r \<longrightarrow> proc_active (processes g' p) \<and> res_active (resources g' r))
      \<and> (request_matrix g' p r = 0 \<or> request_matrix g' p r = 1)
      \<and> (0 < request_matrix g' p r \<longrightarrow> proc_active (processes g' p) \<and> res_active (resources g' r))"
      using e[unfolded edges_ok_def, rule_format, OF pr] assms(5)[OF pr]
      by (auto simp: assms(2,3,4))
  qed
  moreover have "\<And>r. assigned_sum g' r = assigned_sum g r"
    by (rule assigned_sum_same) (simp add: assms(2))
  then have "counts_ok g'"
    using c unfolding counts_ok_def by (simp add: assms(3))
  ultimately show ?thesis by (simp add: rag_inv_def)
qed

lemma inv_request:
  assumes "rag_inv g"
  shows "rag_inv (snd (rag_request_resource g p r))"
  by (rule inv_frame[OF assms])
     (auto simp: rag_request_resource_def rag_get_process_def rag_get_resource_def mat_upd_def
           split: option.splits if_splits)

lemma inv_cancel:
  assumes "rag_inv g"
  shows "rag_inv (snd (rag_cancel_request g p r))"
  by (rule inv_frame[OF assms])
     (auto simp: rag_cancel_request_def Let_def mat_upd_def split: if_splits)

lemma inv_set_state:
  assumes "rag_inv g"
  shows "rag_inv (snd (rag_set_process_state g p st))"
  by (rule inv_frame[OF assms])
     (auto simp: rag_set_process_state_def rag_get_process_def split: option.splits if_splits)

lemma inv_exec: "rag_inv g \<Longrightarrow> rag_inv (rag_exec g opn)"
  by (cases opn)
     (simp_all add: inv_init inv_add_process inv_remove_process inv_set_state inv_add_resource
        inv_remove_resource inv_request inv_cancel inv_allocate inv_release inv_release_all)

lemma inv_run: "rag_inv (rag_run ops)"
  unfolding rag_run_def
  by (induction ops rule: rev_induct) (simp_all add: inv_init inv_exec)


lemma assigned_sum_nonneg: "edges_ok g \<Longrightarrow> 0 \<le> r \<Longrightarrow> r < 64 \<Longrightarrow> 0 \<le> assigned_sum g r"
  unfolding assigned_sum_alt edges_ok_def by (rule sum_nonneg) auto

text \<open>
  C1. After every sequence of Graph Store operations from the empty graph, whether the calls
  succeed or fail, each active resource r has available[r] plus the sum over all process
  slots of assignment[p][r] equal to total[r], and 0 <= available[r] <= total[r].
\<close>

theorem instance_accounting:
  "0 \<le> r \<and> r < MAX_RESOURCES \<and> res_active (resources (rag_run ops) r) \<longrightarrow>
     available_instances (resources (rag_run ops) r) + assigned_sum (rag_run ops) r
       = total_instances (resources (rag_run ops) r)
   \<and> 0 \<le> available_instances (resources (rag_run ops) r)
   \<and> available_instances (resources (rag_run ops) r) \<le> total_instances (resources (rag_run ops) r)"
proof (intro impI)
  assume r: "0 \<le> r \<and> r < MAX_RESOURCES \<and> res_active (resources (rag_run ops) r)"
  have inv: "edges_ok (rag_run ops)" "counts_ok (rag_run ops)"
    using inv_run[of ops] by (auto simp: rag_inv_def)
  have "0 \<le> assigned_sum (rag_run ops) r"
    using assigned_sum_nonneg[OF inv(1)] r by simp
  then show "available_instances (resources (rag_run ops) r) + assigned_sum (rag_run ops) r
       = total_instances (resources (rag_run ops) r)
   \<and> 0 \<le> available_instances (resources (rag_run ops) r)
   \<and> available_instances (resources (rag_run ops) r) \<le> total_instances (resources (rag_run ops) r)"
    using inv(2)[unfolded counts_ok_def, rule_format, OF r] by simp
qed

text \<open>A run with calls that fail (a release and an allocation with stale ids) among calls that succeed.\<close>

definition accounting_ops :: "rag_op list" where
  "accounting_ops = [OP_ADD_PROCESS ''P1'' 10, OP_ADD_RESOURCE ''R1'' 3, OP_ALLOCATE 0 0,
                     OP_RELEASE 5 5, OP_ALLOCATE 0 0, OP_ALLOCATE 3 0]"

theorem instance_accounting_witness:
  "res_active (resources (rag_run accounting_ops) 0)
   \<and> available_instances (resources (rag_run accounting_ops) 0) = 1
   \<and> total_instances (resources (rag_run accounting_ops) 0) = 3
   \<and> available_instances (resources (rag_run accounting_ops) 0) + assigned_sum (rag_run accounting_ops) 0
       = total_instances (resources (rag_run accounting_ops) 0)
   \<and> 0 \<le> available_instances (resources (rag_run accounting_ops) 0)
   \<and> available_instances (resources (rag_run accounting_ops) 0)
       \<le> total_instances (resources (rag_run accounting_ops) 0)"
proof -
  have h: "res_active (resources (rag_run accounting_ops) 0)"
    by (simp add: accounting_ops_def rag_eval slots_list)
  have v: "available_instances (resources (rag_run accounting_ops) 0) = 1"
    "total_instances (resources (rag_run accounting_ops) 0) = 3"
    by (simp_all add: accounting_ops_def rag_eval slots_list)
  show ?thesis
    using h v instance_accounting[of 0 accounting_ops] by simp
qed


subsection \<open>Failure and allocation\<close>

text \<open>
  C6. Each of add/remove process, add/remove resource, request, cancel_request, allocate and
  release that returns failure (-1 for the two that return an id, false for the others)
  leaves the whole graph as it was.
\<close>

theorem failed_mutator_leaves_graph:
  "(fst (rag_add_process g name prio) = -1 \<longrightarrow> snd (rag_add_process g name prio) = g)
 \<and> (\<not> fst (rag_remove_process g p) \<longrightarrow> snd (rag_remove_process g p) = g)
 \<and> (fst (rag_add_resource g name k) = -1 \<longrightarrow> snd (rag_add_resource g name k) = g)
 \<and> (\<not> fst (rag_remove_resource g r) \<longrightarrow> snd (rag_remove_resource g r) = g)
 \<and> (\<not> fst (rag_request_resource g p r) \<longrightarrow> snd (rag_request_resource g p r) = g)
 \<and> (\<not> fst (rag_cancel_request g p r) \<longrightarrow> snd (rag_cancel_request g p r) = g)
 \<and> (\<not> fst (rag_allocate_resource g p r) \<longrightarrow> snd (rag_allocate_resource g p r) = g)
 \<and> (\<not> fst (rag_release_resource g p r) \<longrightarrow> snd (rag_release_resource g p r) = g)"
  using add_process_fail[of g name prio] remove_process_fail[of g p]
    add_resource_fail[of g name k] remove_resource_fail[of g r] request_fail[of g p r]
    cancel_fail[of g p r] allocate_fail[of g p r] release_fail[of g p r]
  by blast

text \<open>A graph with no free process slot, on which \<open>rag_add_process\<close> fails.\<close>

definition full_graph :: RAG where
  "full_graph = rag_init\<lparr>processes := (\<lambda>_. \<lparr>proc_id = 0, proc_name = [], state = PROCESS_RUNNING,
                           priority = 0, proc_active = True\<rparr>)\<rparr>"

theorem failed_mutator_leaves_graph_witness:
  "fst (rag_add_process full_graph ''P'' 1) = -1
 \<and> snd (rag_add_process full_graph ''P'' 1) = full_graph
 \<and> \<not> fst (rag_remove_process full_graph 64)
 \<and> snd (rag_remove_process full_graph 64) = full_graph
 \<and> fst (rag_add_resource full_graph ''P'' 0) = -1
 \<and> snd (rag_add_resource full_graph ''P'' 0) = full_graph
 \<and> \<not> fst (rag_remove_resource full_graph 0)
 \<and> snd (rag_remove_resource full_graph 0) = full_graph
 \<and> \<not> fst (rag_request_resource full_graph 64 0)
 \<and> snd (rag_request_resource full_graph 64 0) = full_graph
 \<and> \<not> fst (rag_cancel_request full_graph 64 0)
 \<and> snd (rag_cancel_request full_graph 64 0) = full_graph
 \<and> \<not> fst (rag_allocate_resource full_graph 64 0)
 \<and> snd (rag_allocate_resource full_graph 64 0) = full_graph
 \<and> \<not> fst (rag_release_resource full_graph 64 0)
 \<and> snd (rag_release_resource full_graph 64 0) = full_graph"
proof -
  have h1: "fst (rag_add_process full_graph ''P'' 1) = -1"
    by (simp add: rag_add_process_def full_graph_def slots_list)
  have h2: "\<not> fst (rag_remove_process full_graph 64)"
    by (simp add: rag_remove_process_def)
  have h3: "fst (rag_add_resource full_graph ''P'' 0) = -1"
    by (simp add: rag_add_resource_def)
  have h4: "\<not> fst (rag_remove_resource full_graph 0)"
    by (simp add: rag_remove_resource_def full_graph_def rag_init_def)
  have h5: "\<not> fst (rag_request_resource full_graph 64 0)"
    by (simp add: rag_request_resource_def rag_get_process_def)
  have h6: "\<not> fst (rag_cancel_request full_graph 64 0)"
    by (simp add: rag_cancel_request_def)
  have h7: "\<not> fst (rag_allocate_resource full_graph 64 0)"
    by (simp add: rag_allocate_resource_def rag_get_process_def)
  have h8: "\<not> fst (rag_release_resource full_graph 64 0)"
    by (simp add: rag_release_resource_def)
  show ?thesis
    using h1 h2 h3 h4 h5 h6 h7 h8
      failed_mutator_leaves_graph[of full_graph "''P''" 1 64 0 0]
      failed_mutator_leaves_graph[of full_graph "''P''" 1 64 0 0]
    by blast
qed


text \<open>
  C5. Where available[r] is not negative, allocate(p, r) fails exactly when p or r is not an
  active slot or available[r] = 0; when it succeeds, available[r] is one less,
  assignment[p][r] one more, request[p][r] is 0, and the state of p is Running if p has no
  request left. The condition of success does not mention request[p][r]: no earlier request
  is needed.
\<close>

theorem allocate_contract:
  assumes "0 \<le> available_instances (resources g r)"
  shows "(\<not> fst (rag_allocate_resource g p r)) =
           (rag_get_process g p = None \<or> rag_get_resource g r = None
            \<or> available_instances (resources g r) = 0)
       \<and> (fst (rag_allocate_resource g p r) \<longrightarrow>
            available_instances (resources (snd (rag_allocate_resource g p r)) r)
              = available_instances (resources g r) - 1
          \<and> assignment_matrix (snd (rag_allocate_resource g p r)) p r = assignment_matrix g p r + 1
          \<and> request_matrix (snd (rag_allocate_resource g p r)) p r = 0
          \<and> ((\<forall>r'. 0 \<le> r' \<and> r' < MAX_RESOURCES
                  \<longrightarrow> request_matrix (snd (rag_allocate_resource g p r)) p r' \<le> 0)
              \<longrightarrow> state (processes (snd (rag_allocate_resource g p r)) p) = PROCESS_RUNNING))"
proof -
  have fails: "(\<not> fst (rag_allocate_resource g p r)) =
           (rag_get_process g p = None \<or> rag_get_resource g r = None
            \<or> available_instances (resources g r) = 0)"
    using assms
    by (auto simp: rag_allocate_resource_def rag_get_resource_def Let_def
             split: option.splits if_splits)
  have effect: "fst (rag_allocate_resource g p r) \<Longrightarrow>
            available_instances (resources (snd (rag_allocate_resource g p r)) r)
              = available_instances (resources g r) - 1
          \<and> assignment_matrix (snd (rag_allocate_resource g p r)) p r = assignment_matrix g p r + 1
          \<and> request_matrix (snd (rag_allocate_resource g p r)) p r = 0
          \<and> ((\<forall>r'. 0 \<le> r' \<and> r' < MAX_RESOURCES
                  \<longrightarrow> request_matrix (snd (rag_allocate_resource g p r)) p r' \<le> 0)
              \<longrightarrow> state (processes (snd (rag_allocate_resource g p r)) p) = PROCESS_RUNNING)"
    by (auto simp: rag_allocate_resource_def rag_get_resource_def rag_get_process_def Let_def
                   mat_upd_def has_requests_iff
             split: option.splits if_splits)
  show ?thesis using fails effect by blast
qed




text \<open>One process and one single-instance resource.\<close>

definition one_each :: RAG where
  "one_each = rag_run [OP_ADD_PROCESS ''P1'' 10, OP_ADD_RESOURCE ''R1'' 1]"

theorem allocate_contract_witness:
  "0 \<le> available_instances (resources one_each 0)
   \<and> request_matrix one_each 0 0 = 0
   \<and> fst (rag_allocate_resource one_each 0 0)
   \<and> available_instances (resources (snd (rag_allocate_resource one_each 0 0)) 0) = 0
   \<and> assignment_matrix (snd (rag_allocate_resource one_each 0 0)) 0 0 = 1
   \<and> request_matrix (snd (rag_allocate_resource one_each 0 0)) 0 0 = 0
   \<and> state (processes (snd (rag_allocate_resource one_each 0 0)) 0) = PROCESS_RUNNING
   \<and> \<not> fst (rag_allocate_resource (snd (rag_allocate_resource one_each 0 0)) 0 0)"
proof -
  have h: "0 \<le> available_instances (resources one_each 0)"
    "available_instances (resources one_each 0) = 1"
    "assignment_matrix one_each 0 0 = 0"
    "request_matrix one_each 0 0 = 0"
    "rag_get_process one_each 0 \<noteq> None" "rag_get_resource one_each 0 \<noteq> None"
    by (simp_all add: one_each_def rag_eval slots_list)
  have none_left: "\<forall>r'. 0 \<le> r' \<and> r' < MAX_RESOURCES
          \<longrightarrow> request_matrix (snd (rag_allocate_resource one_each 0 0)) 0 r' \<le> 0"
    by (simp add: one_each_def rag_eval slots_list)
  have h2: "0 \<le> available_instances (resources (snd (rag_allocate_resource one_each 0 0)) 0)"
    "available_instances (resources (snd (rag_allocate_resource one_each 0 0)) 0) = 0"
    by (simp_all add: one_each_def rag_eval slots_list)
  note first = allocate_contract[of one_each 0 0, OF h(1)]
  note second = allocate_contract[of "snd (rag_allocate_resource one_each 0 0)" 0 0, OF h2(1)]
  have ok: "fst (rag_allocate_resource one_each 0 0)"
    using first h(2,5,6) by simp
  have eff: "assignment_matrix (snd (rag_allocate_resource one_each 0 0)) 0 0 = 1"
    "request_matrix (snd (rag_allocate_resource one_each 0 0)) 0 0 = 0"
    "state (processes (snd (rag_allocate_resource one_each 0 0)) 0) = PROCESS_RUNNING"
    using first ok none_left h(3) by simp_all
  have again: "\<not> fst (rag_allocate_resource (snd (rag_allocate_resource one_each 0 0)) 0 0)"
    using second h2(2) by simp
  show ?thesis
    using h(1,4) ok h2(2) eff again by simp
qed

subsection \<open>Request followed by cancel\<close>

text \<open>One process, one resource, and the process set to Blocked as \<open>recovery_preempt_resources\<close> does.\<close>

definition blocked_graph :: RAG where
  "blocked_graph = rag_run [OP_ADD_PROCESS ''P1'' 10, OP_ADD_RESOURCE ''R1'' 1,
                            OP_SET_PROCESS_STATE 0 PROCESS_BLOCKED]"

text \<open>
  C7 as stated fails: for a Blocked process with no other request, request then
  cancel_request leaves the state Running.
\<close>

theorem request_cancel_counterexample:
  "\<not> (\<forall>g p r. rag_get_process g p \<noteq> None \<and> rag_get_resource g r \<noteq> None \<and> request_matrix g p r = 0
        \<longrightarrow> request_matrix (snd (rag_cancel_request (snd (rag_request_resource g p r)) p r)) p r
              = request_matrix g p r
          \<and> state (processes (snd (rag_cancel_request (snd (rag_request_resource g p r)) p r)) p)
              = state (processes g p))"
proof
  assume a: "\<forall>g p r. rag_get_process g p \<noteq> None \<and> rag_get_resource g r \<noteq> None \<and> request_matrix g p r = 0
        \<longrightarrow> request_matrix (snd (rag_cancel_request (snd (rag_request_resource g p r)) p r)) p r
              = request_matrix g p r
          \<and> state (processes (snd (rag_cancel_request (snd (rag_request_resource g p r)) p r)) p)
              = state (processes g p)"
  have h: "rag_get_process blocked_graph 0 \<noteq> None \<and> rag_get_resource blocked_graph 0 \<noteq> None
           \<and> request_matrix blocked_graph 0 0 = 0"
    by (simp add: blocked_graph_def rag_eval slots_list)
  have before: "state (processes blocked_graph 0) = PROCESS_BLOCKED"
    by (simp add: blocked_graph_def rag_eval slots_list)
  have after: "state (processes (snd (rag_cancel_request (snd (rag_request_resource blocked_graph 0 0)) 0 0)) 0)
               = PROCESS_RUNNING"
    by (simp add: blocked_graph_def rag_eval slots_list)
  from a h have "state (processes (snd (rag_cancel_request (snd (rag_request_resource blocked_graph 0 0)) 0 0)) 0)
               = state (processes blocked_graph 0)"
    by blast
  with before after show False by simp
qed

text \<open>
  C7, amended. For an active process p and an active resource r with request[p][r] = 0,
  request(p, r) followed by cancel_request(p, r) both succeed and leave the graph as it was
  except for the state of p, which is Waiting if p has another pending request and Running
  if it has none; so the state is restored exactly when p was Running with no pending
  request or Waiting with another pending request.
\<close>

theorem request_cancel_roundtrip:
  assumes "rag_get_process g p \<noteq> None" and "rag_get_resource g r \<noteq> None"
    and "request_matrix g p r = 0"
  shows "fst (rag_request_resource g p r)
       \<and> fst (rag_cancel_request (snd (rag_request_resource g p r)) p r)
       \<and> snd (rag_cancel_request (snd (rag_request_resource g p r)) p r)
           = g\<lparr>processes := (processes g)
                 (p := (processes g p)
                    \<lparr>state := (if has_requests g p then PROCESS_WAITING else PROCESS_RUNNING)\<rparr>)\<rparr>"
proof -
  have ok: "0 \<le> p \<and> p < 64" "0 \<le> r \<and> r < 64" "proc_active (processes g p)"
    "res_active (resources g r)"
    using assms by (auto simp: rag_get_process_def rag_get_resource_def split: if_splits)
  let ?g1 = "g\<lparr>request_matrix := mat_upd (request_matrix g) p r 1,
               processes := (processes g)(p := (processes g p)\<lparr>state := PROCESS_WAITING\<rparr>)\<rparr>"
  have req: "rag_request_resource g p r = (True, ?g1)"
    using ok assms(3) by (simp add: rag_request_resource_def rag_get_process_def rag_get_resource_def)
  have restored: "(request_matrix g)(p := (request_matrix g p)(r := 0)) = request_matrix g"
    using assms(3) by (auto simp: fun_eq_iff)
  have can: "rag_cancel_request ?g1 p r
     = (True, g\<lparr>processes := (processes g)
                 (p := (processes g p)
                    \<lparr>state := (if has_requests g p then PROCESS_WAITING else PROCESS_RUNNING)\<rparr>)\<rparr>)"
    using ok
    by (simp add: rag_cancel_request_def Let_def mat_upd_def restored has_requests_def)
  show ?thesis by (simp add: req can)
qed


theorem request_cancel_roundtrip_witness:
  "rag_get_process blocked_graph 0 \<noteq> None \<and> rag_get_resource blocked_graph 0 \<noteq> None
   \<and> request_matrix blocked_graph 0 0 = 0
   \<and> fst (rag_request_resource blocked_graph 0 0)
   \<and> fst (rag_cancel_request (snd (rag_request_resource blocked_graph 0 0)) 0 0)
   \<and> snd (rag_cancel_request (snd (rag_request_resource blocked_graph 0 0)) 0 0)
       = blocked_graph\<lparr>processes := (processes blocked_graph)
           (0 := (processes blocked_graph 0)\<lparr>state := PROCESS_RUNNING\<rparr>)\<rparr>"
proof -
  have h: "rag_get_process blocked_graph 0 \<noteq> None" "rag_get_resource blocked_graph 0 \<noteq> None"
    "request_matrix blocked_graph 0 0 = 0"
    by (simp_all add: blocked_graph_def rag_eval slots_list)
  have none: "\<not> has_requests blocked_graph 0"
    by (simp add: blocked_graph_def rag_eval slots_list)
  show ?thesis
    using h none request_cancel_roundtrip[OF h] by simp
qed

subsection \<open>Queries with stale or invalid ids\<close>

text \<open>
  C10. \<open>is_process_deadlocked\<close> returns false for a process id that is negative, at least
  64, or names an inactive slot; \<open>rag_is_requesting\<close> and \<open>rag_is_holding\<close> return false
  when the process id or the resource id is out of range.
\<close>

theorem stale_id_queries:
  "(pid < 0 \<or> pid \<ge> MAX_PROCESSES \<or> \<not> proc_active (processes g pid)
      \<longrightarrow> is_process_deadlocked g pid = Some False)
 \<and> (p < 0 \<or> p \<ge> MAX_PROCESSES \<or> r < 0 \<or> r \<ge> MAX_RESOURCES
      \<longrightarrow> \<not> rag_is_requesting g p r \<and> \<not> rag_is_holding g p r)"
  by (auto simp: is_process_deadlocked_def rag_is_requesting_def rag_is_holding_def)

theorem stale_id_queries_witness:
  "is_process_deadlocked one_each (-1) = Some False
 \<and> is_process_deadlocked one_each 64 = Some False
 \<and> \<not> proc_active (processes one_each 1)
 \<and> is_process_deadlocked one_each 1 = Some False
 \<and> \<not> rag_is_requesting one_each (-1) 0 \<and> \<not> rag_is_holding one_each (-1) 0
 \<and> \<not> rag_is_requesting one_each 0 64 \<and> \<not> rag_is_holding one_each 0 64"
proof -
  have h: "\<not> proc_active (processes one_each 1)"
    by (simp add: one_each_def rag_eval slots_list)
  show ?thesis
    using h stale_id_queries[of "-1" one_each "-1" 0] stale_id_queries[of 64 one_each 0 64]
      stale_id_queries[of 1 one_each 0 64]
    by simp
qed



section \<open>Evaluation on concrete graphs\<close>

text \<open>
  Equations in which every step of a computation is an application to values that are
  already computed, so that the simplifier evaluates a concrete graph from the inside out.
  The matrix combinators name the closed forms of the clearing loops; \<open>visit_requested\<close>
  and \<open>visit_holder\<close> name the bodies of the two successor loops of the search.
\<close>

definition clear_row :: "(int \<Rightarrow> int \<Rightarrow> int) \<Rightarrow> int \<Rightarrow> (int \<Rightarrow> int \<Rightarrow> int)" where
  "clear_row m s = (\<lambda>p r. if p = s \<and> 0 \<le> r \<and> r < 64 then 0 else m p r)"

definition clear_col :: "(int \<Rightarrow> int \<Rightarrow> int) \<Rightarrow> int \<Rightarrow> (int \<Rightarrow> int \<Rightarrow> int)" where
  "clear_col m s = (\<lambda>p r. if r = s \<and> 0 \<le> p \<and> p < 64 then 0 else m p r)"

definition clear_held :: "(int \<Rightarrow> int \<Rightarrow> int) \<Rightarrow> int \<Rightarrow> (int \<Rightarrow> int \<Rightarrow> int)" where
  "clear_held m s = (\<lambda>p r. if p = s \<and> (0 \<le> r \<and> r < 64) \<and> m s r > 0 then 0 else m p r)"

definition credit_released :: "(int \<Rightarrow> Resource) \<Rightarrow> (int \<Rightarrow> int \<Rightarrow> int) \<Rightarrow> int \<Rightarrow> (int \<Rightarrow> Resource)" where
  "credit_released res a p =
     (\<lambda>r. if (0 \<le> r \<and> r < 64) \<and> a p r > 0 \<and> res_active (res r)
           then (res r)\<lparr>available_instances := available_instances (res r) + a p r\<rparr>
           else res r)"

lemma mat_upd_apply: "mat_upd m i j v p r = (if p = i \<and> r = j then v else m p r)"
  by (simp add: mat_upd_def)

lemma add_process_eval:
  "rag_add_process g name prio =
     (case find (\<lambda>i. \<not> proc_active (processes g i)) slots of
        None \<Rightarrow> (-1, g)
      | Some slot \<Rightarrow>
          (slot, g\<lparr>processes := (processes g)
                     (slot := \<lparr>proc_id = slot, proc_name = take (MAX_NAME_LENGTH - 1) name,
                               state = PROCESS_RUNNING, priority = prio, proc_active = True\<rparr>),
                   request_matrix := clear_row (request_matrix g) slot,
                   assignment_matrix := clear_row (assignment_matrix g) slot,
                   process_count := process_count g + 1\<rparr>))"
  by (simp add: add_process_closed clear_row_def split: option.splits)

lemma add_resource_eval:
  "rag_add_resource g name instances =
     (if instances \<le> 0 then (-1, g)
      else case find (\<lambda>i. \<not> res_active (resources g i)) slots of
        None \<Rightarrow> (-1, g)
      | Some slot \<Rightarrow>
          (slot, g\<lparr>resources := (resources g)
                     (slot := \<lparr>res_id = slot, res_name = take (MAX_NAME_LENGTH - 1) name,
                               total_instances = instances, available_instances = instances,
                               res_active = True\<rparr>),
                   request_matrix := clear_col (request_matrix g) slot,
                   assignment_matrix := clear_col (assignment_matrix g) slot,
                   resource_count := resource_count g + 1\<rparr>))"
  by (simp add: add_resource_closed clear_col_def split: option.splits)

lemma release_all_eval:
  "snd (rag_release_all_resources g p) =
     (if p < 0 \<or> p \<ge> 64 then g
      else g\<lparr>assignment_matrix := clear_held (assignment_matrix g) p,
             resources := credit_released (resources g) (assignment_matrix g) p\<rparr>)"
  by (simp add: release_all_closed clear_held_def credit_released_def)

lemma remove_process_eval:
  "rag_remove_process g p =
     (if p < 0 \<or> p \<ge> 64 then (False, g)
      else if \<not> proc_active (processes g p) then (False, g)
      else (True, g\<lparr>assignment_matrix := clear_held (assignment_matrix g) p,
                    resources := credit_released (resources g) (assignment_matrix g) p,
                    request_matrix := clear_held (request_matrix g) p,
                    processes := (processes g)
                       (p := (processes g p)\<lparr>proc_active := False, proc_id := -1\<rparr>),
                    process_count := process_count g - 1\<rparr>))"
proof -
  have q: "(\<lambda>p' r. if p' = p \<and> (0 \<le> r \<and> r < 64) \<and> request_matrix g p' r > 0 then 0
                   else request_matrix g p' r) = clear_held (request_matrix g) p"
    by (auto simp: clear_held_def fun_eq_iff)
  have a: "(\<lambda>p' r. if p' = p \<and> (0 \<le> r \<and> r < 64) \<and> assignment_matrix g p r > 0 then 0
                   else assignment_matrix g p' r) = clear_held (assignment_matrix g) p"
    by (auto simp: clear_held_def fun_eq_iff)
  have c: "(\<lambda>r. if (0 \<le> r \<and> r < 64) \<and> assignment_matrix g p r > 0
                                 \<and> res_active (resources g r)
                             then (resources g r)\<lparr>available_instances :=
                                     available_instances (resources g r) + assignment_matrix g p r\<rparr>
                             else resources g r) = credit_released (resources g) (assignment_matrix g) p"
    by (auto simp: credit_released_def fun_eq_iff)
  show ?thesis
    unfolding remove_process_closed q a c ..
qed

lemmas rag_eval2 =
  rag_run_def rag_init_def add_process_eval add_resource_eval remove_process_eval
  rag_request_resource_def rag_cancel_request_def
  rag_allocate_resource_def rag_release_resource_def rag_set_process_state_def
  rag_get_process_def rag_get_resource_def has_requests_def mat_upd_apply Let_def
  release_all_eval clear_row_def clear_col_def clear_held_def credit_released_def



definition visit_requested :: "nat \<Rightarrow> RAG \<Rightarrow> int \<Rightarrow> DFSState \<Rightarrow> int \<Rightarrow> (bool \<times> DFSState) option" where
  "visit_requested depth rag process_id s r =
     (if request_matrix rag process_id r > 0 then dfs_visit_resource depth rag s r else Some (False, s))"

definition visit_holder :: "nat \<Rightarrow> RAG \<Rightarrow> int \<Rightarrow> DFSState \<Rightarrow> int \<Rightarrow> (bool \<times> DFSState) option" where
  "visit_holder depth rag resource_id s p =
     (if assignment_matrix rag p resource_id > 0 then dfs_visit_process depth rag s p else Some (False, s))"

lemma dfs_visit_process_step:
  "dfs_visit_process depth rag st process_id =
     (if depth = 0 then None
      else if cycle_found st then Some (True, st)
      else if process_id < 0 \<or> process_id \<ge> MAX_PROCESSES then Some (False, st)
      else if \<not> proc_active (processes rag process_id) then Some (False, st)
      else case (if process_colors st process_id = COLOR_GRAY
                 then path_find (path st) NODE_PROCESS process_id else None) of
        Some i \<Rightarrow> Some (True, (extract_cycle st i)\<lparr>cycle_found := True\<rparr>)
      | None \<Rightarrow>
          if process_colors st process_id = COLOR_BLACK then Some (False, st)
          else
            case for_until (visit_requested (depth - 1) rag process_id) slots
                   (st\<lparr>process_colors := (process_colors st)(process_id := COLOR_GRAY),
                       path := (if length (path st) < MAX_CYCLE_LENGTH
                                then path st @ [\<lparr>node_id = process_id, node_type = NODE_PROCESS\<rparr>]
                                else path st)\<rparr>) of
                 None \<Rightarrow> None
               | Some (found, st3) \<Rightarrow>
                   if found then Some (True, st3)
                   else Some (False, st3\<lparr>path := butlast (path st3),
                                   process_colors := (process_colors st3)(process_id := COLOR_BLACK)\<rparr>))"
proof (cases depth)
  case 0
  then show ?thesis by simp
next
  case (Suc d)
  have b: "visit_requested d rag process_id
           = (\<lambda>s r. if request_matrix rag process_id r > 0
                     then dfs_visit_resource d rag s r else Some (False, s))"
    by (simp add: fun_eq_iff visit_requested_def)
  show ?thesis
    unfolding Suc by (auto simp: b Let_def split: option.splits)
qed

lemma dfs_visit_resource_step:
  "dfs_visit_resource depth rag st resource_id =
     (if depth = 0 then None
      else if cycle_found st then Some (True, st)
      else if resource_id < 0 \<or> resource_id \<ge> MAX_RESOURCES then Some (False, st)
      else if \<not> res_active (resources rag resource_id) then Some (False, st)
      else case (if resource_colors st resource_id = COLOR_GRAY
                 then path_find (path st) NODE_RESOURCE resource_id else None) of
        Some i \<Rightarrow> Some (True, (extract_cycle st i)\<lparr>cycle_found := True\<rparr>)
      | None \<Rightarrow>
          if resource_colors st resource_id = COLOR_BLACK then Some (False, st)
          else
            case for_until (visit_holder (depth - 1) rag resource_id) slots
                   (st\<lparr>resource_colors := (resource_colors st)(resource_id := COLOR_GRAY),
                       path := (if length (path st) < MAX_CYCLE_LENGTH
                                then path st @ [\<lparr>node_id = resource_id, node_type = NODE_RESOURCE\<rparr>]
                                else path st)\<rparr>) of
                 None \<Rightarrow> None
               | Some (found, st3) \<Rightarrow>
                   if found then Some (True, st3)
                   else Some (False, st3\<lparr>path := butlast (path st3),
                                   resource_colors := (resource_colors st3)(resource_id := COLOR_BLACK)\<rparr>))"
proof (cases depth)
  case 0
  then show ?thesis by simp
next
  case (Suc d)
  have b: "visit_holder d rag resource_id
           = (\<lambda>s p. if assignment_matrix rag p resource_id > 0
                     then dfs_visit_process d rag s p else Some (False, s))"
    by (simp add: fun_eq_iff visit_holder_def)
  show ?thesis
    unfolding Suc by (auto simp: b Let_def split: option.splits)
qed

lemmas dfs_eval =
  detect_deadlock_def detect_deadlock_with_algorithm_def detect_roots.simps
  dfs_visit_process_step dfs_visit_resource_step visit_requested_def visit_holder_def
  for_until.simps init_dfs_state_def deadlock_result_init_def dfs_depth_def extract_cycle_def
  process_in_deadlock_def resource_in_deadlock_def has_requests_def


lemma dining_create_eval:
  "dining_create i (g, philosophers, forks) =
     (snd (rag_add_resource
             (snd (rag_add_process g (take (MAX_NAME_LENGTH - 1) (''Philosopher_'' @ decimal (nat (i + 1)))) 50))
             (take (MAX_NAME_LENGTH - 1) (''Fork_'' @ decimal (nat (i + 1)))) 1),
      philosophers @ [fst (rag_add_process g (take (MAX_NAME_LENGTH - 1) (''Philosopher_'' @ decimal (nat (i + 1)))) 50)],
      forks @ [fst (rag_add_resource
             (snd (rag_add_process g (take (MAX_NAME_LENGTH - 1) (''Philosopher_'' @ decimal (nat (i + 1)))) 50))
             (take (MAX_NAME_LENGTH - 1) (''Fork_'' @ decimal (nat (i + 1)))) 1)])"
  by (simp add: dining_create_def Let_def split: prod.splits)

lemma dining_pick_up_eval:
  "dining_pick_up n philosophers forks i g =
     snd (rag_request_resource
            (snd (rag_allocate_resource g (philosophers ! nat i) (forks ! nat i)))
            (philosophers ! nat i) (forks ! nat ((i + 1) mod n)))"
  by (simp add: dining_pick_up_def Let_def)

lemma upto_0_4: "[0..4] = [0, 1, 2, 3, 4::int]"
  by (simp add: upto.simps)

lemmas dining_eval =
  setup_dining_philosophers_def rag_reset_def dining_pick_up_all.simps dining_create_eval
  dining_pick_up_eval Let_def

end
